theory Spec2Isabelle
  imports Complex_Main "HOL-Library.AList"
begin

section \<open>Values read from and written to browser storage\<close>

text \<open>
  The storage layer (class \<open>TodoStorage\<close>) works on values that come out of
  \<open>JSON.parse\<close> or are handed in by the user interface. They are modelled as JSON
  values; an object is an association list read with \<open>map_of\<close>, and a property
  that is absent reads as \<open>None\<close> (JavaScript's \<open>undefined\<close>). A number is the
  value the parser produced; the code only ever tests numbers for truthiness.
\<close>

datatype json =
    JNull
  | JBool bool
  | JNumber rat
  | JString string
  | JArray "json list"
  | JObject "(string \<times> json) list"

type_synonym obj = "(string \<times> json) list"

text \<open>JavaScript truthiness (\<open>!v\<close> is its negation).\<close>

fun truthy :: "json \<Rightarrow> bool" where
  "truthy JNull = False"
| "truthy (JBool b) = b"
| "truthy (JNumber n) = (n \<noteq> 0)"
| "truthy (JString s) = (s \<noteq> [])"
| "truthy (JArray xs) = True"
| "truthy (JObject kv) = True"

fun truthy_opt :: "json option \<Rightarrow> bool" where
  "truthy_opt None = False"
| "truthy_opt (Some v) = truthy v"

text \<open>The \<open>typeof\<close> operator; \<open>None\<close> is \<open>undefined\<close>.\<close>

fun typeof :: "json option \<Rightarrow> string" where
  "typeof None = ''undefined''"
| "typeof (Some JNull) = ''object''"
| "typeof (Some (JBool b)) = ''boolean''"
| "typeof (Some (JNumber n)) = ''number''"
| "typeof (Some (JString s)) = ''string''"
| "typeof (Some (JArray xs)) = ''object''"
| "typeof (Some (JObject kv)) = ''object''"

text \<open>
  Reading a data property \<open>v.k\<close> of a value that is neither \<open>null\<close> nor
  \<open>undefined\<close>. The code reads only the keys \<open>id\<close>, \<open>title\<close>, \<open>completed\<close>,
  \<open>dueDate\<close>, \<open>createdAt\<close>, \<open>completedAt\<close>, \<open>priority\<close>, \<open>tags\<close>,
  \<open>description\<close> and \<open>version\<close>, none of which an array, a string, a number or
  a boolean has.
\<close>

fun get_prop :: "json \<Rightarrow> string \<Rightarrow> json option" where
  "get_prop (JObject kv) k = map_of kv k"
| "get_prop v k = None"

text \<open>The expression \<open>a || b\<close> where \<open>a\<close> is a property read.\<close>

definition or_else :: "json option \<Rightarrow> json \<Rightarrow> json" where
  "or_else a b = (case a of None \<Rightarrow> b | Some v \<Rightarrow> if truthy v then v else b)"

text \<open>\<open>Array.isArray\<close>.\<close>

fun isArray :: "json option \<Rightarrow> bool" where
  "isArray (Some (JArray xs)) = True"
| "isArray v = False"

text \<open>The expression \<open>Array.isArray(a) ? a : []\<close>.\<close>

definition array_or_empty :: "json option \<Rightarrow> json" where
  "array_or_empty a = (if isArray a then (case a of Some v \<Rightarrow> v | None \<Rightarrow> JArray []) else JArray [])"

text \<open>
  \<open>String.prototype.trim\<close>: strips white space at both ends. Characters are code
  units below 256; the white-space ones are tab, line feed, vertical tab, form feed,
  carriage return, space and the no-break space.
\<close>

definition is_ws :: "char \<Rightarrow> bool" where
  "is_ws c = (of_char c \<in> {9, 10, 11, 12, 13, 32, 160::nat})"

definition trim :: "string \<Rightarrow> string" where
  "trim s = rev (dropWhile is_ws (rev (dropWhile is_ws s)))"

section \<open>The environment of one call\<close>

text \<open>
  Every public operation runs synchronously. What it reads from the browser during the
  call is gathered in one record: the clock (\<open>new Date().toISOString()\<close> and
  \<open>Date.now()\<close>, read as one instant per call), the random suffix
  \<open>Math.random().toString(36).substr(2, 9)\<close>, the instant \<open>new Date(v).getTime()\<close>
  of a value (\<open>None\<close> is \<open>NaN\<close>), the string an array or object converts to
  when compared, and what \<open>localStorage.setItem\<close> does with a key and a document.
\<close>

datatype write_outcome = WriteOk | QuotaExceededError | OtherError

record env =
  now_iso :: string
  date_now :: int
  random36 :: string
  to_time :: "json \<Rightarrow> int option"
  to_primitive :: "json \<Rightarrow> string"
  set_item :: "string \<Rightarrow> json \<Rightarrow> write_outcome"

section \<open>The entity validator\<close>

text \<open>
  The callback of \<open>todos.filter\<close> in \<open>validateTodos\<close>: required fields. Each
  \<open>a || b\<close> of the source is two tests in a row.
\<close>

definition validateTodos_keep :: "json \<Rightarrow> bool" where
  "validateTodos_keep todo =
     (if \<not> truthy todo then False
      else if typeof (Some todo) \<noteq> ''object'' then False
      else if \<not> truthy_opt (get_prop todo ''id'') then False
      else if typeof (get_prop todo ''id'') \<noteq> ''string'' then False
      else if \<not> truthy_opt (get_prop todo ''title'') then False
      else if typeof (get_prop todo ''title'') \<noteq> ''string'' then False
      else if typeof (get_prop todo ''completed'') \<noteq> ''boolean'' then False
      else True)"

text \<open>
  The callback of \<open>.map\<close> in \<open>validateTodos\<close>; it only runs on entries the filter
  kept, whose \<open>id\<close> and \<open>title\<close> are strings and whose \<open>completed\<close> is a
  boolean. \<open>prop_value\<close> is the plain read \<open>todo.id\<close> of a property that is there,
  \<open>trim_title\<close> is \<open>todo.title.trim()\<close> on a title that is a string.
\<close>

definition prop_value :: "json option \<Rightarrow> json" where
  "prop_value a = (case a of Some v \<Rightarrow> v | None \<Rightarrow> JNull)"

definition trim_title :: "json option \<Rightarrow> json" where
  "trim_title t = (case t of Some (JString s) \<Rightarrow> JString (trim s) | _ \<Rightarrow> JNull)"

definition validateTodos_fill :: "env \<Rightarrow> json \<Rightarrow> json" where
  "validateTodos_fill e todo = JObject
     [(''id'', prop_value (get_prop todo ''id'')),
      (''title'', trim_title (get_prop todo ''title'')),
      (''completed'', JBool (truthy_opt (get_prop todo ''completed''))),
      (''dueDate'', or_else (get_prop todo ''dueDate'') JNull),
      (''createdAt'', or_else (get_prop todo ''createdAt'') (JString (now_iso e))),
      (''completedAt'', or_else (get_prop todo ''completedAt'') JNull),
      (''priority'', or_else (get_prop todo ''priority'') (JString ''normal'')),
      (''tags'', array_or_empty (get_prop todo ''tags'')),
      (''description'', or_else (get_prop todo ''description'') (JString ''''))]"

definition validateTodos :: "env \<Rightarrow> json \<Rightarrow> json list" where
  "validateTodos e todos =
     (case todos of
        JArray xs \<Rightarrow> map (validateTodos_fill e) (filter validateTodos_keep xs)
      | _ \<Rightarrow> [])"


section \<open>Small pieces of the JavaScript runtime\<close>

text \<open>\<open>Number.prototype.toString\<close> on an integer: its decimal digits.\<close>

definition digit_char :: "nat \<Rightarrow> char" where
  "digit_char d = ''0123456789'' ! d"

fun toString_nat :: "nat \<Rightarrow> string" where
  "toString_nat n =
     (if n < 10 then [digit_char n]
      else toString_nat (n div 10) @ [digit_char (n mod 10)])"

definition toString_int :: "int \<Rightarrow> string" where
  "toString_int i = (if i < 0 then CHR ''-'' # toString_nat (nat (- i)) else toString_nat (nat i))"

text \<open>The relation \<open><\<close> on two strings: lexicographic on code units.\<close>

fun string_lt :: "string \<Rightarrow> string \<Rightarrow> bool" where
  "string_lt [] [] = False"
| "string_lt [] (y # ys) = True"
| "string_lt (x # xs) [] = False"
| "string_lt (x # xs) (y # ys) =
     ((of_char x :: nat) < of_char y \<or> (x = y \<and> string_lt xs ys))"

text \<open>
  \<open>v < s\<close> for a string \<open>s\<close> that is not numeric (here \<open>'1.0.0'\<close>): two strings
  compare as strings, an array or object first converts to a string, and every other
  value converts both sides to numbers, where \<open>s\<close> is \<open>NaN\<close> and the test fails.
\<close>

definition js_less_than :: "env \<Rightarrow> json \<Rightarrow> string \<Rightarrow> bool" where
  "js_less_than e v s =
     (case v of
        JString a \<Rightarrow> string_lt a s
      | JArray xs \<Rightarrow> string_lt (to_primitive e v) s
      | JObject kv \<Rightarrow> string_lt (to_primitive e v) s
      | _ \<Rightarrow> False)"

text \<open>
  The own enumerable properties that a spread \<open>...v\<close> copies: those of an object
  (each key once), the indexed elements of an array, the indexed characters of a string,
  nothing for \<open>null\<close>, a number or a boolean.
\<close>

fun own_entries :: "json \<Rightarrow> obj" where
  "own_entries (JObject kv) = AList.clearjunk kv"
| "own_entries (JArray xs) = zip (map toString_nat [0..<length xs]) xs"
| "own_entries (JString s) = zip (map toString_nat [0..<length s]) (map (\<lambda>c. JString [c]) s)"
| "own_entries v = []"

text \<open>Assigning properties one after the other, as an object literal does.\<close>

fun assign_all :: "obj \<Rightarrow> obj \<Rightarrow> obj" where
  "assign_all target [] = target"
| "assign_all target ((k, v) # kvs) = assign_all (AList.update k v target) kvs"

text \<open>
  \<open>todo.k = v\<close> on an element of the list \<open>getTodos\<close> returned; those elements are
  objects built by \<open>validateTodos\<close>.
\<close>

fun set_prop :: "json \<Rightarrow> string \<Rightarrow> json \<Rightarrow> json" where
  "set_prop (JObject kv) k v = JObject (AList.update k v kv)"
| "set_prop t k v = t"

text \<open>\<open>Array.prototype.findIndex\<close>; \<open>None\<close> is the result \<open>-1\<close>.\<close>

fun findIndex :: "('a \<Rightarrow> bool) \<Rightarrow> 'a list \<Rightarrow> nat option" where
  "findIndex P [] = None"
| "findIndex P (x # xs) =
     (if P x then Some 0 else map_option Suc (findIndex P xs))"

section \<open>The store\<close>

text \<open>
  What \<open>localStorage.getItem\<close> yields for a key: nothing (or the empty string, which
  the code treats the same way), a text \<open>JSON.parse\<close> rejects, or a document.
\<close>

datatype item = Absent | Garbage | Doc json

text \<open>
  The exceptions that occur: a \<open>TypeError\<close> for a property read on \<open>null\<close> or a
  call of \<open>trim\<close> on what is no string, and the \<open>SyntaxError\<close> of \<open>JSON.parse\<close>,
  which \<open>getTodos\<close> and \<open>getSettings\<close> catch on the spot.
\<close>

datatype js_error = TypeError | SyntaxError

record store =
  todos_item :: item
  settings_item :: item
  usingMemoryFallback :: bool
  memoryStorage_todos :: "json list"
  memoryStorage_settings :: obj
  events :: "(string \<times> json \<times> int) list"

definition storageKey :: string where
  "storageKey = ''todo-pwa-data''"

definition settingsKey :: string where
  "settingsKey = ''todo-pwa-settings''"

definition version :: string where
  "version = ''1.0.0''"

definition getDefaultSettings :: obj where
  "getDefaultSettings =
     [(''version'', JString version),
      (''theme'', JString ''auto''),
      (''notifications'', JBool False),
      (''autoCleanup'', JBool True),
      (''sortBy'', JString ''createdAt''),
      (''sortOrder'', JString ''desc''),
      (''showCompleted'', JBool True),
      (''compactMode'', JBool False)]"

definition useMemoryFallback :: "store \<Rightarrow> store" where
  "useMemoryFallback s =
     s\<lparr>memoryStorage_todos := [], memoryStorage_settings := getDefaultSettings,
       usingMemoryFallback := True\<rparr>"

text \<open>The change notifier: the dispatched events are kept in a log.\<close>

definition triggerStorageEvent :: "env \<Rightarrow> string \<Rightarrow> json \<Rightarrow> store \<Rightarrow> store" where
  "triggerStorageEvent e type data s = s\<lparr>events := events s @ [(type, data, date_now e)]\<rparr>"

definition generateId :: "env \<Rightarrow> string" where
  "generateId e = toString_int (date_now e) @ random36 e"

text \<open>
  \<open>getTodos()\<close> called without options, as every operation of the class calls it:
  read, parse, validate. A parse error is caught and gives the empty list.
\<close>

definition getTodos :: "env \<Rightarrow> store \<Rightarrow> json list" where
  "getTodos e s =
     (if usingMemoryFallback s then validateTodos e (JArray (memoryStorage_todos s))
      else (case todos_item s of
              Absent \<Rightarrow> validateTodos e (JArray [])
            | Garbage \<Rightarrow> []
            | Doc d \<Rightarrow> validateTodos e d))"

definition getTodo :: "env \<Rightarrow> json \<Rightarrow> store \<Rightarrow> json option" where
  "getTodo e ident s = find (\<lambda>todo. get_prop todo ''id'' = Some ident) (getTodos e s)"

section \<open>Saving and quota recovery\<close>

text \<open>
  The callback of \<open>todos.filter\<close> in \<open>handleQuotaExceeded\<close>. \<open>a || b\<close> on two
  property reads, and \<open>new Date(v).getTime()\<close> where \<open>v\<close> may be \<open>undefined\<close>
  (an invalid date, \<open>NaN\<close>); a comparison with \<open>NaN\<close> is false.
\<close>

definition js_or :: "json option \<Rightarrow> json option \<Rightarrow> json option" where
  "js_or a b = (if truthy_opt a then a else b)"

definition getTime :: "env \<Rightarrow> json option \<Rightarrow> int option" where
  "getTime e v = (case v of None \<Rightarrow> None | Some x \<Rightarrow> to_time e x)"

definition thirtyDaysAgo :: "env \<Rightarrow> int" where
  "thirtyDaysAgo e = date_now e - (30 * 24 * 60 * 60 * 1000)"

definition cleanup_keep :: "env \<Rightarrow> json \<Rightarrow> bool" where
  "cleanup_keep e todo =
     (if \<not> truthy_opt (get_prop todo ''completed'') then True
      else (case getTime e (js_or (get_prop todo ''completedAt'') (get_prop todo ''createdAt'')) of
              None \<Rightarrow> False
            | Some completedDate \<Rightarrow> completedDate > thirtyDaysAgo e))"

text \<open>
  \<open>handleQuotaExceeded\<close> calls \<open>saveTodos\<close>, which calls it back when the write
  fails for lack of space again. \<open>save\<close> is that inner \<open>saveTodos\<close>; \<open>None\<close> means
  the nesting allowed was used up. The body of the \<open>try\<close> comes first, then the
  function with its \<open>catch\<close>.
\<close>

definition handleQuotaExceeded_try ::
  "(env \<Rightarrow> json \<Rightarrow> store \<Rightarrow> (bool \<times> store) option) \<Rightarrow> env \<Rightarrow> store \<Rightarrow> (js_error + store) option" where
  "handleQuotaExceeded_try save e s =
     (let todos = getTodos e s;
          filteredTodos = filter (cleanup_keep e) todos
      in if length filteredTodos < length todos
         then (case save e (JArray filteredTodos) s of
                 None \<Rightarrow> None
               | Some (ok, s') \<Rightarrow> Some (Inr s'))
         else Some (Inr s))"

definition handleQuotaExceeded ::
  "(env \<Rightarrow> json \<Rightarrow> store \<Rightarrow> (bool \<times> store) option) \<Rightarrow> env \<Rightarrow> store \<Rightarrow> store option" where
  "handleQuotaExceeded save e s =
     (case handleQuotaExceeded_try save e s of
        None \<Rightarrow> None
      | Some (Inl err) \<Rightarrow> Some (useMemoryFallback s)
      | Some (Inr s') \<Rightarrow> Some s')"

text \<open>
  \<open>saveTodos\<close>: validate, write, notify. The first argument bounds how deeply
  \<open>saveTodos\<close> and \<open>handleQuotaExceeded\<close> may nest; one level is enough whenever the
  write does not fail for lack of space.
\<close>

primrec saveTodos :: "nat \<Rightarrow> env \<Rightarrow> json \<Rightarrow> store \<Rightarrow> (bool \<times> store) option" where
  "saveTodos 0 = (\<lambda>e todos s. None)"
| "saveTodos (Suc n) = (\<lambda>e todos s.
     (let validatedTodos = validateTodos e todos
      in if usingMemoryFallback s
         then Some (True, triggerStorageEvent e ''todos_updated'' (JArray validatedTodos)
                            (s\<lparr>memoryStorage_todos := validatedTodos\<rparr>))
         else (case set_item e storageKey (JArray validatedTodos) of
                 WriteOk \<Rightarrow>
                   Some (True, triggerStorageEvent e ''todos_updated'' (JArray validatedTodos)
                                 (s\<lparr>todos_item := Doc (JArray validatedTodos)\<rparr>))
               | QuotaExceededError \<Rightarrow>
                   (case handleQuotaExceeded (saveTodos n) e s of
                      None \<Rightarrow> None
                    | Some s' \<Rightarrow> Some (False, s'))
               | OtherError \<Rightarrow> Some (False, s))))"

section \<open>Adding, updating, deleting\<close>

text \<open>
  \<open>addTodo\<close>. \<open>todoData.title.trim()\<close> throws a \<open>TypeError\<close> unless the title is a
  string; the \<open>catch\<close> then returns \<open>null\<close>. The result is the returned todo
  (\<open>None\<close> is \<open>null\<close>) and the store after the call.
\<close>

definition newTodo :: "env \<Rightarrow> json \<Rightarrow> string \<Rightarrow> obj" where
  "newTodo e todoData title =
     [(''id'', JString (generateId e)),
      (''title'', JString (trim title)),
      (''completed'', JBool False),
      (''dueDate'', or_else (get_prop todoData ''dueDate'') JNull),
      (''createdAt'', JString (now_iso e)),
      (''completedAt'', JNull),
      (''priority'', or_else (get_prop todoData ''priority'') (JString ''normal'')),
      (''tags'', or_else (get_prop todoData ''tags'') (JArray [])),
      (''description'', or_else (get_prop todoData ''description'') (JString ''''))]"

definition addTodo_try ::
  "nat \<Rightarrow> env \<Rightarrow> json \<Rightarrow> store \<Rightarrow> (js_error + (json option \<times> store)) option" where
  "addTodo_try fuel e todoData s =
     (let todos = getTodos e s
      in case get_prop todoData ''title'' of
           Some (JString title) \<Rightarrow>
             (let new = JObject (newTodo e todoData title)
              in case saveTodos fuel e (JArray (new # todos)) s of
                   None \<Rightarrow> None
                 | Some (ok, s') \<Rightarrow>
                     if ok then Some (Inr (Some new, triggerStorageEvent e ''todo_added'' new s'))
                     else Some (Inr (None, s')))
         | _ \<Rightarrow> Some (Inl TypeError))"

definition addTodo :: "nat \<Rightarrow> env \<Rightarrow> json \<Rightarrow> store \<Rightarrow> (json option \<times> store) option" where
  "addTodo fuel e todoData s =
     (case addTodo_try fuel e todoData s of
        None \<Rightarrow> None
      | Some (Inl err) \<Rightarrow> Some (None, s)
      | Some (Inr r) \<Rightarrow> Some r)"

text \<open>
  \<open>updateTodo\<close>. The merged record is the object literal
  \<open>{...todos[index], ...updates, id, updatedAt: now}\<close>; \<open>updates.completed\<close> throws
  a \<open>TypeError\<close> when \<open>updates\<close> is \<open>null\<close>.
\<close>

definition merged_todo :: "env \<Rightarrow> json \<Rightarrow> json \<Rightarrow> json \<Rightarrow> obj" where
  "merged_todo e todo updates ident =
     AList.update ''updatedAt'' (JString (now_iso e))
       (AList.update ''id'' ident
          (assign_all (assign_all [] (own_entries todo)) (own_entries updates)))"

text \<open>
  The step \<open>if (updates.completed !== undefined) todos[index].completedAt = ...\<close>
  on the merged record.
\<close>

definition completion_change :: "env \<Rightarrow> json \<Rightarrow> obj \<Rightarrow> obj" where
  "completion_change e updates merged =
     (case get_prop updates ''completed'' of
        None \<Rightarrow> merged
      | Some c \<Rightarrow>
          AList.update ''completedAt'' (if truthy c then JString (now_iso e) else JNull) merged)"

definition updateTodo_try ::
  "nat \<Rightarrow> env \<Rightarrow> json \<Rightarrow> json \<Rightarrow> store \<Rightarrow> (js_error + (json option \<times> store)) option" where
  "updateTodo_try fuel e ident updates s =
     (let todos = getTodos e s
      in case findIndex (\<lambda>todo. get_prop todo ''id'' = Some ident) todos of
           None \<Rightarrow> Some (Inr (None, s))
         | Some index \<Rightarrow>
             (let oldTodo = JObject (own_entries (todos ! index));
                  merged = merged_todo e (todos ! index) updates ident
              in if updates = JNull then Some (Inl TypeError)
                 else
                   (let updated = JObject (completion_change e updates merged)
                    in case saveTodos fuel e (JArray (todos[index := updated])) s of
                         None \<Rightarrow> None
                       | Some (ok, s') \<Rightarrow>
                           if ok
                           then Some (Inr (Some updated,
                                  triggerStorageEvent e ''todo_updated''
                                    (JObject [(''old'', oldTodo), (''new'', updated)]) s'))
                           else Some (Inr (None, s')))))"

definition updateTodo ::
  "nat \<Rightarrow> env \<Rightarrow> json \<Rightarrow> json \<Rightarrow> store \<Rightarrow> (json option \<times> store) option" where
  "updateTodo fuel e ident updates s =
     (case updateTodo_try fuel e ident updates s of
        None \<Rightarrow> None
      | Some (Inl err) \<Rightarrow> Some (None, s)
      | Some (Inr r) \<Rightarrow> Some r)"

text \<open>\<open>deleteTodo\<close>: \<open>todos.splice(index, 1)\<close> removes the element at \<open>index\<close>.\<close>

definition deleteTodo :: "nat \<Rightarrow> env \<Rightarrow> json \<Rightarrow> store \<Rightarrow> (bool \<times> store) option" where
  "deleteTodo fuel e ident s =
     (let todos = getTodos e s
      in case findIndex (\<lambda>todo. get_prop todo ''id'' = Some ident) todos of
           None \<Rightarrow> Some (False, s)
         | Some index \<Rightarrow>
             (let deletedTodo = todos ! index
              in case saveTodos fuel e (JArray (take index todos @ drop (Suc index) todos)) s of
                   None \<Rightarrow> None
                 | Some (ok, s') \<Rightarrow>
                     if ok then Some (True, triggerStorageEvent e ''todo_deleted'' deletedTodo s')
                     else Some (False, s')))"

section \<open>Settings and migration\<close>

definition getSettings :: "env \<Rightarrow> store \<Rightarrow> obj" where
  "getSettings e s =
     (if usingMemoryFallback s then memoryStorage_settings s
      else (case settings_item s of
              Absent \<Rightarrow> assign_all (assign_all [] getDefaultSettings) getDefaultSettings
            | Garbage \<Rightarrow> getDefaultSettings
            | Doc d \<Rightarrow> assign_all (assign_all [] getDefaultSettings) (own_entries d)))"

text \<open>A failed write is caught and reported as \<open>false\<close>; there is no recovery here.\<close>

definition saveSettings :: "env \<Rightarrow> json \<Rightarrow> store \<Rightarrow> bool \<times> store" where
  "saveSettings e settings s =
     (let validatedSettings = assign_all (assign_all [] getDefaultSettings) (own_entries settings)
      in if usingMemoryFallback s
         then (True, triggerStorageEvent e ''settings_updated'' (JObject validatedSettings)
                       (s\<lparr>memoryStorage_settings := validatedSettings\<rparr>))
         else (case set_item e settingsKey (JObject validatedSettings) of
                 WriteOk \<Rightarrow>
                   (True, triggerStorageEvent e ''settings_updated'' (JObject validatedSettings)
                            (s\<lparr>settings_item := Doc (JObject validatedSettings)\<rparr>))
               | _ \<Rightarrow> (False, s)))"

text \<open>
  The body of \<open>todos.forEach\<close> in \<open>performMigrations\<close>: the three backfills on one
  todo, with the flag \<open>migrated\<close> carried along.
\<close>

definition migrate_todo :: "env \<Rightarrow> json \<times> bool \<Rightarrow> json \<times> bool" where
  "migrate_todo e tm =
     (let (t1, m1) = (if \<not> truthy_opt (get_prop (fst tm) ''id'')
                      then (set_prop (fst tm) ''id'' (JString (generateId e)), True) else tm);
          (t2, m2) = (if \<not> truthy_opt (get_prop t1 ''createdAt'')
                      then (set_prop t1 ''createdAt'' (JString (now_iso e)), True) else (t1, m1));
          (t3, m3) = (if typeof (get_prop t2 ''completed'') \<noteq> ''boolean''
                      then (set_prop t2 ''completed'' (JBool False), True) else (t2, m2))
      in (t3, m3))"

fun migrate_all :: "env \<Rightarrow> json list \<Rightarrow> bool \<Rightarrow> json list \<times> bool" where
  "migrate_all e [] migrated = ([], migrated)"
| "migrate_all e (todo # todos) migrated =
     (let (todo', m') = migrate_todo e (todo, migrated);
          (todos', m'') = migrate_all e todos m'
      in (todo' # todos', m''))"

definition performMigrations :: "nat \<Rightarrow> env \<Rightarrow> json \<Rightarrow> string \<Rightarrow> store \<Rightarrow> store option" where
  "performMigrations fuel e fromVersion toVersion s =
     (let todos = getTodos e s;
          (todos', migrated) =
             (if js_less_than e fromVersion ''1.0.0'' then migrate_all e todos False
              else (todos, False))
      in if migrated then map_option snd (saveTodos fuel e (JArray todos') s) else Some s)"

text \<open>
  \<open>handleVersionMigration\<close>, the step of initialisation that runs the migrations.
  \<open>currentVersion !== this.version\<close> is strict inequality.
\<close>

definition handleVersionMigration :: "nat \<Rightarrow> env \<Rightarrow> store \<Rightarrow> store option" where
  "handleVersionMigration fuel e s =
     (let settings = getSettings e s;
          currentVersion = or_else (map_of settings ''version'') (JString ''0.0.0'')
      in if currentVersion \<noteq> JString version
         then (case performMigrations fuel e currentVersion version s of
                 None \<Rightarrow> None
               | Some s1 \<Rightarrow>
                   Some (snd (saveSettings e (JObject (AList.update ''version'' (JString version) settings)) s1)))
         else Some s)"

section \<open>A concrete session\<close>

text \<open>
  A clock reading of 2 November 2026, 10:00 UTC, a storage backend that accepts every
  write, and the instants of the dates that occur below.
\<close>

definition time_table :: "json \<Rightarrow> int option" where
  "time_table v =
     (if v = JString ''2026-01-01T00:00:00.000Z'' then Some 1767225600000
      else if v = JString ''2026-01-05T00:00:00.000Z'' then Some 1767571200000
      else if v = JString ''2026-10-01T09:00:00.000Z'' then Some 1790845200000
      else if v = JString ''2026-10-20T12:00:00.000Z'' then Some 1792497600000
      else if v = JString ''2026-10-25T08:00:00.000Z'' then Some 1792915200000
      else if v = JString ''2026-11-01T09:00:00.000Z'' then Some 1793523600000
      else if v = JString ''2026-11-02T10:00:00.000Z'' then Some 1793613600000
      else None)"

definition env0 :: env where
  "env0 = \<lparr>now_iso = ''2026-11-02T10:00:00.000Z'', date_now = 1793613600000,
            random36 = ''k3x9q2m7p'', to_time = time_table,
            to_primitive = (\<lambda>v. ''[object Object]''),
            set_item = (\<lambda>k v. WriteOk)\<rparr>"

text \<open>A backend so full that only a list of at most three todos still fits.\<close>

definition env_full :: env where
  "env_full = env0\<lparr>set_item := (\<lambda>k v. case v of
       JArray xs \<Rightarrow> if length xs \<le> 3 then WriteOk else QuotaExceededError
     | _ \<Rightarrow> WriteOk)\<rparr>"

text \<open>
  A backend that is full for longer lists and fails for another reason on shorter ones.
\<close>

definition env_broken :: env where
  "env_broken = env0\<lparr>set_item := (\<lambda>k v. case v of
       JArray xs \<Rightarrow> if length xs \<le> 1 then OtherError else QuotaExceededError
     | _ \<Rightarrow> WriteOk)\<rparr>"

text \<open>A pending todo, and one that was completed on 5 January 2026.\<close>

definition todo_pending :: json where
  "todo_pending = JObject
     [(''id'', JString ''2''),
      (''title'', JString ''Team meeting''),
      (''completed'', JBool False),
      (''dueDate'', JNull),
      (''createdAt'', JString ''2026-11-01T09:00:00.000Z''),
      (''completedAt'', JNull),
      (''priority'', JString ''normal''),
      (''tags'', JArray []),
      (''description'', JString '''')]"

definition todo_old :: json where
  "todo_old = JObject
     [(''id'', JString ''1''),
      (''title'', JString ''Pay rent''),
      (''completed'', JBool True),
      (''dueDate'', JNull),
      (''createdAt'', JString ''2026-01-01T00:00:00.000Z''),
      (''completedAt'', JString ''2026-01-05T00:00:00.000Z''),
      (''priority'', JString ''normal''),
      (''tags'', JArray []),
      (''description'', JString '''')]"

definition store0 :: store where
  "store0 = \<lparr>todos_item = Doc (JArray [todo_pending, todo_old]), settings_item = Absent,
              usingMemoryFallback = False, memoryStorage_todos = [],
              memoryStorage_settings = [], events = []\<rparr>"

text \<open>
  Three completed todos more: one completed on 20 October 2026, and two that carry no
  \<open>completedAt\<close>, created on 25 October 2026 and on 1 January 2026.
\<close>

definition todo_recent :: json where
  "todo_recent = JObject
     [(''id'', JString ''3''),
      (''title'', JString ''Book flights''),
      (''completed'', JBool True),
      (''dueDate'', JNull),
      (''createdAt'', JString ''2026-10-01T09:00:00.000Z''),
      (''completedAt'', JString ''2026-10-20T12:00:00.000Z''),
      (''priority'', JString ''normal''),
      (''tags'', JArray []),
      (''description'', JString '''')]"

definition todo_undated_recent :: json where
  "todo_undated_recent = JObject
     [(''id'', JString ''4''),
      (''title'', JString ''Renew passport''),
      (''completed'', JBool True),
      (''dueDate'', JNull),
      (''createdAt'', JString ''2026-10-25T08:00:00.000Z''),
      (''completedAt'', JNull),
      (''priority'', JString ''normal''),
      (''tags'', JArray []),
      (''description'', JString '''')]"

definition todo_undated_old :: json where
  "todo_undated_old = JObject
     [(''id'', JString ''5''),
      (''title'', JString ''File taxes''),
      (''completed'', JBool True),
      (''dueDate'', JNull),
      (''createdAt'', JString ''2026-01-01T00:00:00.000Z''),
      (''completedAt'', JNull),
      (''priority'', JString ''normal''),
      (''tags'', JArray []),
      (''description'', JString '''')]"

definition store_five :: store where
  "store_five = \<lparr>todos_item = Doc (JArray [todo_pending, todo_recent, todo_undated_recent,
                                              todo_old, todo_undated_old]),
                  settings_item = Absent, usingMemoryFallback = False,
                  memoryStorage_todos = [], memoryStorage_settings = [], events = []\<rparr>"

text \<open>A store left by a version before 1.0.0, holding one record without \<open>id\<close>,
  \<open>createdAt\<close> and \<open>completed\<close>.\<close>

definition store_legacy :: store where
  "store_legacy = \<lparr>todos_item = Doc (JArray [JObject [(''title'', JString ''Water plants'')]]),
                    settings_item = Doc (JObject [(''version'', JString ''0.9.0'')]),
                    usingMemoryFallback = False, memoryStorage_todos = [],
                    memoryStorage_settings = [], events = []\<rparr>"

text \<open>
  A list as it may come back from storage or from a caller: a record with two keys the
  store does not know, a record without \<open>id\<close>, and a value that is no record at all.
\<close>

definition raw_mixed :: json where
  "raw_mixed = JArray
     [JObject [(''id'', JString ''7''), (''title'', JString '' Call Ana ''),
               (''completed'', JBool True), (''updatedAt'', JString ''2026-10-30T08:00:00.000Z''),
               (''colour'', JString ''red'')],
      JObject [(''title'', JString ''no id''), (''completed'', JBool False)],
      JString ''junk'']"

text \<open>
  Three partial payloads for \<open>updateTodo\<close>: one that completes a todo and also carries
  a \<open>completedAt\<close> of its own, one that carries an \<open>id\<close>, and one that carries a
  \<open>createdAt\<close>.
\<close>

definition partial_done :: json where
  "partial_done = JObject [(''completed'', JBool True),
                           (''completedAt'', JString ''1999-01-01T00:00:00.000Z'')]"

definition partial_id :: json where
  "partial_id = JObject [(''title'', JString ''Standup''), (''id'', JString ''99'')]"

definition partial_created :: json where
  "partial_created = JObject [(''createdAt'', JString ''1999-01-01T00:00:00.000Z'')]"

text \<open>Three inputs for \<open>addTodo\<close>: as the form sends it, with tags that are no list, and plain.\<close>

definition data_form :: json where
  "data_form = JObject [(''title'', JString '' Buy milk ''), (''dueDate'', JString ''2026-11-05'')]"

definition data_tags :: json where
  "data_tags = JObject [(''title'', JString ''Buy milk''), (''tags'', JString ''home'')]"

definition data_plain :: json where
  "data_plain = JObject [(''title'', JString ''Buy milk'')]"

text \<open>
  What is persisted: the list the active backend holds, if it holds a document; and the
  field names of a stored todo, in the order \<open>validateTodos\<close> writes them.
\<close>

definition persisted_todos :: "store \<Rightarrow> json option" where
  "persisted_todos s =
     (if usingMemoryFallback s then Some (JArray (memoryStorage_todos s))
      else (case todos_item s of Doc d \<Rightarrow> Some d | _ \<Rightarrow> None))"

definition todo_fields :: "string list" where
  "todo_fields = [''id'', ''title'', ''completed'', ''dueDate'', ''createdAt'', ''completedAt'',
     ''priority'', ''tags'', ''description'']"

section \<open>Properties of the runtime pieces\<close>

lemma toString_nat_nonempty: "toString_nat n \<noteq> []"
  by (subst toString_nat.simps) simp

lemma generateId_nonempty: "generateId e \<noteq> []"
  by (simp add: generateId_def toString_int_def toString_nat_nonempty)

lemma dropWhile_id_hd: "xs = [] \<or> \<not> P (hd xs) \<Longrightarrow> dropWhile P xs = xs"
  by (cases xs) auto

lemma dropWhile_hd: "dropWhile P xs = [] \<or> \<not> P (hd (dropWhile P xs))"
  by (induction xs) auto

lemma rev_dropWhile_rev_hd:
  assumes "xs = [] \<or> \<not> P (hd xs)"
  shows "rev (dropWhile P (rev xs)) = [] \<or> \<not> P (hd (rev (dropWhile P (rev xs))))"
  using assms
proof (induction xs rule: rev_induct)
  case Nil
  then show ?case by simp
next
  case (snoc x xs)
  then show ?case
    by (cases xs) (auto split: if_splits)
qed

lemma trim_idem: "trim (trim s) = trim s"
proof -
  let ?a = "dropWhile is_ws s"
  let ?b = "rev (dropWhile is_ws (rev ?a))"
  have a: "?a = [] \<or> \<not> is_ws (hd ?a)" by (rule dropWhile_hd)
  have b: "?b = [] \<or> \<not> is_ws (hd ?b)" using a by (rule rev_dropWhile_rev_hd)
  have 1: "dropWhile is_ws ?b = ?b" using b by (rule dropWhile_id_hd)
  show ?thesis
    unfolding trim_def by (simp add: 1)
qed

lemma or_else_idem: "or_else (Some (or_else a b)) b = or_else a b"
  by (simp add: or_else_def split: option.splits)

lemma or_else_truthy: "truthy b \<Longrightarrow> or_else (Some (or_else a b)) c = or_else a b"
  by (simp add: or_else_def split: option.splits)

lemma array_or_empty_idem: "array_or_empty (Some (array_or_empty a)) = array_or_empty a"
proof (cases a)
  case None
  then show ?thesis by (simp add: array_or_empty_def)
next
  case (Some v)
  then show ?thesis by (cases v) (simp_all add: array_or_empty_def)
qed

section \<open>Properties of the validator\<close>

lemma validateTodos_array:
  "validateTodos e (JArray xs) = map (validateTodos_fill e) (filter validateTodos_keep xs)"
  by (simp add: validateTodos_def)

lemma keep_iff:
  "validateTodos_keep t \<longleftrightarrow>
     (\<exists>kv i ti c. t = JObject kv \<and> map_of kv ''id'' = Some (JString i) \<and> i \<noteq> [] \<and>
        map_of kv ''title'' = Some (JString ti) \<and> ti \<noteq> [] \<and>
        map_of kv ''completed'' = Some (JBool c))"
proof (cases t)
  case (JObject kv)
  show ?thesis
  proof (cases "map_of kv ''id''")
    case None
    then show ?thesis using JObject by (simp add: validateTodos_keep_def)
  next
    case (Some i)
    note i = this
    show ?thesis
    proof (cases "map_of kv ''title''")
      case None
      then show ?thesis using JObject i by (cases i) (simp_all add: validateTodos_keep_def)
    next
      case (Some ti)
      note ti = this
      show ?thesis
      proof (cases "map_of kv ''completed''")
        case None
        then show ?thesis using JObject i ti
          by (cases i; cases ti) (simp_all add: validateTodos_keep_def)
      next
        case (Some c)
        then show ?thesis using JObject i ti
          by (cases i; cases ti; cases c) (simp_all add: validateTodos_keep_def)
      qed
    qed
  qed
qed (simp_all add: validateTodos_keep_def)

lemma keepE:
  assumes "validateTodos_keep t"
  obtains kv i ti c where "t = JObject kv" "map_of kv ''id'' = Some (JString i)" "i \<noteq> []"
    "map_of kv ''title'' = Some (JString ti)" "ti \<noteq> []" "map_of kv ''completed'' = Some (JBool c)"
  using assms unfolding keep_iff by blast

lemma fill_keeps_id:
  "validateTodos_keep t \<Longrightarrow> get_prop (validateTodos_fill e t) ''id'' = get_prop t ''id''"
  by (erule keepE) (simp add: validateTodos_fill_def prop_value_def)

lemma fill_fields:
  "\<exists>kv. validateTodos_fill e t = JObject kv \<and> map fst kv = todo_fields"
  by (simp add: validateTodos_fill_def todo_fields_def)

lemma fill_no_updatedAt: "get_prop (validateTodos_fill e t) ''updatedAt'' = None"
  by (simp add: validateTodos_fill_def)

lemma fill_idem:
  assumes "validateTodos_keep t" and "now_iso e \<noteq> [] \<or> now_iso e' = now_iso e"
  shows "validateTodos_fill e' (validateTodos_fill e t) = validateTodos_fill e t"
proof -
  from assms(1) obtain kv i ti c where t: "t = JObject kv" "map_of kv ''id'' = Some (JString i)"
    "i \<noteq> []" "map_of kv ''title'' = Some (JString ti)" "map_of kv ''completed'' = Some (JBool c)"
    by (rule keepE)
  have created: "or_else (Some (or_else (map_of kv ''createdAt'') (JString (now_iso e)))) (JString (now_iso e'))
      = or_else (map_of kv ''createdAt'') (JString (now_iso e))"
  proof (cases "now_iso e \<noteq> []")
    case True
    then have "truthy (JString (now_iso e))" by simp
    then show ?thesis by (rule or_else_truthy)
  next
    case False
    with assms(2) have "now_iso e' = now_iso e" by simp
    then show ?thesis by (simp add: or_else_idem)
  qed
  show ?thesis
    using t created
    by (simp add: validateTodos_fill_def trim_title_def trim_idem or_else_idem
        array_or_empty_idem prop_value_def)
qed

lemma validateTodos_twice:
  assumes "now_iso e \<noteq> [] \<or> now_iso e' = now_iso e"
  shows "validateTodos e' (JArray (validateTodos e todos))
           = filter validateTodos_keep (validateTodos e todos)"
proof -
  have "map (validateTodos_fill e') (filter validateTodos_keep (map (validateTodos_fill e) xs))
          = filter validateTodos_keep (map (validateTodos_fill e) xs)"
    if "\<forall>x\<in>set xs. validateTodos_keep x" for xs
    using that
  proof (induction xs)
    case Nil
    then show ?case by simp
  next
    case (Cons x xs)
    then show ?case using fill_idem [OF _ assms, of x] by simp
  qed
  from this [of "filter validateTodos_keep xs" for xs] show ?thesis
    by (cases todos) (simp_all add: validateTodos_def)
qed

text \<open>
  C1. The claim: for every raw input, \<open>validateTodos\<close> never throws and every member
  of its result has a non-empty \<open>id\<close> and \<open>title\<close>, a boolean \<open>completed\<close>
  and the six other fields filled in. \<open>validateTodos\<close> is a total function here, and
  every member has the nine fields (\<open>fill_fields\<close>); but the filter tests the title
  before the map trims it, so a title of white space passes the filter and comes out
  empty. The theorem evaluates the code on a list holding one such record.
\<close>

theorem validateTodos_blank_title:
  "validateTodos e (JArray [JObject [(''id'', JString ''a''), (''title'', JString '' ''),
       (''completed'', JBool False)]])
   = [JObject [(''id'', JString ''a''), (''title'', JString ''''), (''completed'', JBool False),
        (''dueDate'', JNull), (''createdAt'', JString (now_iso e)), (''completedAt'', JNull),
        (''priority'', JString ''normal''), (''tags'', JArray []), (''description'', JString '''')]]"
  by (simp add: validateTodos_def validateTodos_keep_def validateTodos_fill_def trim_title_def
      trim_def is_ws_def or_else_def array_or_empty_def prop_value_def)

declare toString_nat.simps [simp del]

section \<open>Properties of saving\<close>

lemma persisted_trigger [simp]:
  "persisted_todos (triggerStorageEvent e ty d s) = persisted_todos s"
  by (simp add: persisted_todos_def triggerStorageEvent_def)

lemma getTodos_trigger [simp]:
  "getTodos e' (triggerStorageEvent e ty d s) = getTodos e' s"
  by (simp add: getTodos_def triggerStorageEvent_def)

lemma flag_trigger [simp]:
  "usingMemoryFallback (triggerStorageEvent e ty d s) = usingMemoryFallback s"
  by (simp add: triggerStorageEvent_def)

lemma persisted_memory:
  "usingMemoryFallback s \<Longrightarrow> persisted_todos (s\<lparr>memoryStorage_todos := x\<rparr>) = Some (JArray x)"
  by (simp add: persisted_todos_def)

lemma persisted_durable:
  "\<not> usingMemoryFallback s \<Longrightarrow> persisted_todos (s\<lparr>todos_item := Doc d\<rparr>) = Some d"
  by (simp add: persisted_todos_def)

lemma getTodos_persisted:
  "persisted_todos s = Some d \<Longrightarrow> getTodos e s = validateTodos e d"
  by (auto simp: persisted_todos_def getTodos_def split: if_splits item.splits)

lemma handleQuotaExceeded_cases:
  assumes "handleQuotaExceeded save e s = Some s'"
  shows "s' = s \<or> (\<exists>ok. save e (JArray (filter (cleanup_keep e) (getTodos e s))) s = Some (ok, s'))"
  using assms
  by (auto simp: handleQuotaExceeded_def handleQuotaExceeded_try_def Let_def
      split: option.splits if_splits sum.splits)

lemma saveTodos_Suc_cases:
  assumes "saveTodos (Suc n) e todos s = Some (ok, s')"
  shows "(ok \<and> usingMemoryFallback s \<and>
            s' = triggerStorageEvent e ''todos_updated'' (JArray (validateTodos e todos))
                   (s\<lparr>memoryStorage_todos := validateTodos e todos\<rparr>))
       \<or> (ok \<and> \<not> usingMemoryFallback s \<and>
            set_item e storageKey (JArray (validateTodos e todos)) = WriteOk \<and>
            s' = triggerStorageEvent e ''todos_updated'' (JArray (validateTodos e todos))
                   (s\<lparr>todos_item := Doc (JArray (validateTodos e todos))\<rparr>))
       \<or> (\<not> ok \<and> \<not> usingMemoryFallback s \<and>
            set_item e storageKey (JArray (validateTodos e todos)) = QuotaExceededError \<and>
            handleQuotaExceeded (saveTodos n) e s = Some s')
       \<or> (\<not> ok \<and> \<not> usingMemoryFallback s \<and>
            set_item e storageKey (JArray (validateTodos e todos)) = OtherError \<and> s' = s)"
  using assms
  by (auto simp: Let_def split: if_splits write_outcome.splits option.splits)

lemma saveTodos_flag:
  "saveTodos fuel e todos s = Some (ok, s') \<Longrightarrow> usingMemoryFallback s' = usingMemoryFallback s"
proof (induction fuel arbitrary: todos ok s')
  case 0
  then show ?case by simp
next
  case (Suc n)
  from saveTodos_Suc_cases [OF Suc.prems] show ?case
  proof (elim disjE conjE)
    assume "handleQuotaExceeded (saveTodos n) e s = Some s'"
    from handleQuotaExceeded_cases [OF this] show ?thesis
      using Suc.IH by auto
  qed simp_all
qed

text \<open>
  When the backend is out of space for every list and there is something to clean up,
  \<open>saveTodos\<close> and \<open>handleQuotaExceeded\<close> call each other for as long as they are
  allowed to nest.
\<close>

lemma saveTodos_quota_again:
  assumes "\<not> usingMemoryFallback s"
    and "\<forall>v. set_item e storageKey v = QuotaExceededError"
    and "length (filter (cleanup_keep e) (getTodos e s)) < length (getTodos e s)"
  shows "saveTodos fuel e todos s = None"
proof (induction fuel arbitrary: todos)
  case 0
  show ?case by simp
next
  case (Suc n)
  have "handleQuotaExceeded (saveTodos n) e s = None"
    using assms(3) Suc.IH
    by (simp add: handleQuotaExceeded_def handleQuotaExceeded_try_def Let_def)
  then show ?case
    using assms(1,2) by (simp add: Let_def)
qed

lemma saveTodos_ok:
  assumes "saveTodos fuel e todos s = Some (True, s')"
  shows "persisted_todos s' = Some (JArray (validateTodos e todos))"
proof (cases fuel)
  case 0
  with assms show ?thesis by simp
next
  case (Suc n)
  with assms have "saveTodos (Suc n) e todos s = Some (True, s')" by simp
  from saveTodos_Suc_cases [OF this] show ?thesis
    by (auto simp: persisted_memory persisted_durable)
qed


lemma validateTodos_members:
  assumes "r \<in> set (validateTodos e xs)"
  shows "(\<exists>kv. r = JObject kv \<and> map fst kv = todo_fields) \<and>
         (\<exists>x. validateTodos_keep x \<and> r = validateTodos_fill e x)"
proof -
  from assms obtain x where "validateTodos_keep x" "r = validateTodos_fill e x"
    by (cases xs) (auto simp: validateTodos_def)
  then show ?thesis using fill_fields [of e x] by blast
qed


section \<open>Properties of reading and migrating\<close>

lemma getTodos_members:
  assumes "t \<in> set (getTodos e s)"
  shows "\<exists>x. validateTodos_keep x \<and> t = validateTodos_fill e x"
proof -
  from assms obtain d where "t \<in> set (validateTodos e d)"
    by (auto simp: getTodos_def split: if_splits item.splits)
  then show ?thesis using validateTodos_members by blast
qed

lemma getTodos_no_updatedAt:
  "t \<in> set (getTodos e s) \<Longrightarrow> get_prop t ''updatedAt'' = None"
  by (drule getTodos_members) (auto simp: fill_no_updatedAt)

lemma migrate_todo_valid:
  assumes "validateTodos_keep x" and "now_iso e \<noteq> []"
  shows "migrate_todo e (validateTodos_fill e x, m) = (validateTodos_fill e x, m)"
proof -
  from assms(1) obtain kv i ti c where "x = JObject kv" "map_of kv ''id'' = Some (JString i)"
    "i \<noteq> []" "map_of kv ''completed'' = Some (JBool c)"
    by (rule keepE)
  then show ?thesis
    using assms(2)
    by (simp add: migrate_todo_def validateTodos_fill_def or_else_def prop_value_def
        split: option.splits)
qed

lemma migrate_all_valid:
  assumes "\<forall>t\<in>set ts. \<exists>x. validateTodos_keep x \<and> t = validateTodos_fill e x"
    and "now_iso e \<noteq> []"
  shows "migrate_all e ts m = (ts, m)"
  using assms(1)
proof (induction ts)
  case Nil
  then show ?case by simp
next
  case (Cons t ts)
  then obtain x where "validateTodos_keep x" "t = validateTodos_fill e x" by auto
  with Cons assms(2) show ?case by (simp add: migrate_todo_valid)
qed

lemma performMigrations_unchanged:
  assumes "now_iso e \<noteq> []"
  shows "performMigrations fuel e fromVersion toVersion s = Some s"
proof -
  have "migrate_all e (getTodos e s) False = (getTodos e s, False)"
    using getTodos_members assms by (intro migrate_all_valid) blast+
  then show ?thesis by (simp add: performMigrations_def Let_def)
qed

section \<open>Evaluating the concrete session\<close>

lemmas validator_defs = validateTodos_def validateTodos_keep_def validateTodos_fill_def
  trim_title_def trim_def is_ws_def or_else_def array_or_empty_def prop_value_def

lemmas session_defs = env0_def env_full_def env_broken_def time_table_def todo_pending_def
  todo_old_def store0_def store_legacy_def raw_mixed_def storageKey_def settingsKey_def
  todo_recent_def todo_undated_recent_def todo_undated_old_def store_five_def
  partial_done_def partial_id_def partial_created_def data_form_def data_tags_def data_plain_def

lemmas operation_defs = addTodo_def addTodo_try_def newTodo_def generateId_def toString_int_def
  digit_char_def updateTodo_def updateTodo_try_def merged_todo_def completion_change_def deleteTodo_def getTodo_def
  getTodos_def handleQuotaExceeded_def handleQuotaExceeded_try_def cleanup_keep_def js_or_def
  getTime_def thirtyDaysAgo_def triggerStorageEvent_def persisted_todos_def
  useMemoryFallback_def getSettings_def saveSettings_def getDefaultSettings_def version_def
  handleVersionMigration_def performMigrations_def migrate_todo_def js_less_than_def

lemma generateId_env0: "generateId env0 = ''1793613600000k3x9q2m7p''"
  by (simp add: generateId_def toString_int_def env0_def toString_nat.simps digit_char_def)


text \<open>
  C2. The claim: when the title is empty after trimming, \<open>addTodo\<close> returns
  \<open>null\<close>, throws nothing and leaves the stored list unchanged. \<open>addTodo\<close> has no
  test of the title. With a title of three spaces it builds a todo whose title is empty;
  \<open>saveTodos\<close> drops that todo while validating, writes the old list and reports
  success, so \<open>addTodo\<close> returns the todo (and announces \<open>todo_added\<close>) although it
  was never stored: the list is unchanged and \<open>getTodo\<close> with the returned id finds
  nothing.
\<close>

theorem addTodo_blank_title_returns_todo:
  "map_option fst (addTodo (Suc 0) env0 (JObject [(''title'', JString ''   '')]) store0)
     = Some (Some (JObject
         [(''id'', JString ''1793613600000k3x9q2m7p''), (''title'', JString ''''),
          (''completed'', JBool False), (''dueDate'', JNull),
          (''createdAt'', JString ''2026-11-02T10:00:00.000Z''), (''completedAt'', JNull),
          (''priority'', JString ''normal''), (''tags'', JArray []),
          (''description'', JString '''')]))
   \<and> map_option (persisted_todos \<circ> snd)
         (addTodo (Suc 0) env0 (JObject [(''title'', JString ''   '')]) store0)
     = Some (Some (JArray [todo_pending, todo_old]))
   \<and> map_option (getTodo env0 (JString ''1793613600000k3x9q2m7p'') \<circ> snd)
         (addTodo (Suc 0) env0 (JObject [(''title'', JString ''   '')]) store0)
     = Some None"
  by (simp add: operation_defs validator_defs session_defs toString_nat.simps Let_def)

text \<open>
  C3. The claim: with a settings version below 1.0.0 and a stored record lacking
  \<open>id\<close>, \<open>createdAt\<close> or a boolean \<open>completed\<close>, the migration backfills the three
  fields and persists the list exactly once. \<open>performMigrations\<close> takes its list from
  \<open>getTodos\<close>, whose validation has already dropped every record without \<open>id\<close> or
  boolean \<open>completed\<close> and filled in \<open>createdAt\<close>; the three backfills never fire
  (\<open>performMigrations_unchanged\<close>). On the legacy store the stored document stays as it
  was, the only event is the settings update (the todo list is never written), and the
  legacy record is not among the todos read afterwards.
\<close>

theorem migration_drops_legacy_record:
  "map_option todos_item (handleVersionMigration (Suc 0) env0 store_legacy)
     = Some (Doc (JArray [JObject [(''title'', JString ''Water plants'')]]))
   \<and> map_option (map fst \<circ> events) (handleVersionMigration (Suc 0) env0 store_legacy)
     = Some [''settings_updated'']
   \<and> map_option (getTodos env0) (handleVersionMigration (Suc 0) env0 store_legacy) = Some []"
  by (simp add: operation_defs validator_defs session_defs Let_def)

text \<open>
  C6. The claim: after a successful \<open>updateTodo\<close> the persisted record, as read by
  \<open>getTodo\<close> or \<open>getTodos\<close>, has \<open>updatedAt\<close> set to the time of the update.
  \<open>updateTodo\<close> sets the field on the record it returns, but \<open>saveTodos\<close> writes
  what \<open>validateTodos\<close> builds, and that has no \<open>updatedAt\<close>: no todo read from the
  store ever has the field (\<open>getTodos_no_updatedAt\<close>). The run: the returned record
  carries \<open>updatedAt\<close>, the record read back does not.
\<close>

theorem updateTodo_loses_updatedAt:
  "map_option fst (updateTodo (Suc 0) env0 (JString ''2'')
       (JObject [(''title'', JString ''Standup'')]) store0)
     = Some (Some (JObject
         [(''id'', JString ''2''), (''title'', JString ''Standup''),
          (''completed'', JBool False), (''dueDate'', JNull),
          (''createdAt'', JString ''2026-11-01T09:00:00.000Z''), (''completedAt'', JNull),
          (''priority'', JString ''normal''), (''tags'', JArray []),
          (''description'', JString ''''),
          (''updatedAt'', JString ''2026-11-02T10:00:00.000Z'')]))
   \<and> map_option (getTodo env0 (JString ''2'') \<circ> snd) (updateTodo (Suc 0) env0 (JString ''2'')
       (JObject [(''title'', JString ''Standup'')]) store0)
     = Some (Some (JObject
         [(''id'', JString ''2''), (''title'', JString ''Standup''),
          (''completed'', JBool False), (''dueDate'', JNull),
          (''createdAt'', JString ''2026-11-01T09:00:00.000Z''), (''completedAt'', JNull),
          (''priority'', JString ''normal''), (''tags'', JArray []),
          (''description'', JString '''')]))"
  by (simp add: operation_defs validator_defs session_defs Let_def)

text \<open>
  C8. The claim: when quota recovery fails to persist the reduced list, the store
  switches to the in-memory backend. The switch stands in the \<open>catch\<close> of
  \<open>handleQuotaExceeded\<close>, but nothing in its \<open>try\<close> throws: \<open>saveTodos\<close> catches
  the failed write itself and returns \<open>false\<close>, which \<open>handleQuotaExceeded\<close> ignores.
  Whenever \<open>saveTodos\<close> returns, the backend in use is the one it started with
  (\<open>saveTodos_flag\<close>); when the reduced write runs out of space as well, the two
  functions only call each other again (\<open>saveTodos_quota_again\<close>). The run: the write of three todos fails for lack of space, the
  write of the reduced list fails too, \<open>addTodo\<close> returns \<open>null\<close>, and the store is
  still on the durable backend with the old list.
\<close>

theorem failed_recovery_keeps_durable_backend:
  "map_option fst (addTodo (Suc (Suc 0)) env_broken (JObject [(''title'', JString ''Buy milk'')]) store0)
     = Some None
   \<and> map_option (usingMemoryFallback \<circ> snd)
         (addTodo (Suc (Suc 0)) env_broken (JObject [(''title'', JString ''Buy milk'')]) store0)
     = Some False
   \<and> map_option (persisted_todos \<circ> snd)
         (addTodo (Suc (Suc 0)) env_broken (JObject [(''title'', JString ''Buy milk'')]) store0)
     = Some (Some (JArray [todo_pending, todo_old]))"
  by (simp add: operation_defs validator_defs session_defs toString_nat.simps Let_def)

section \<open>Properties of object literals and list search\<close>

lemma map_of_assign_all:
  "map_of (assign_all t kvs) k =
     (case map_of (rev kvs) k of None \<Rightarrow> map_of t k | Some v \<Rightarrow> Some v)"
proof (induction kvs arbitrary: t)
  case Nil
  then show ?case by simp
next
  case (Cons kv kvs)
  obtain a b where kv: "kv = (a, b)" by (cases kv)
  show ?case
    unfolding kv
    by (simp add: Cons.IH update_conv' map_add_def split: option.splits)
qed

lemma map_of_rev_distinct:
  "distinct (map fst xs) \<Longrightarrow> map_of (rev xs) k = map_of xs k"
proof (induction xs)
  case Nil
  then show ?case by simp
next
  case (Cons x xs)
  obtain a b where x: "x = (a, b)" by (cases x)
  from Cons.prems have "a \<notin> fst ` set xs" by (simp add: x)
  then have "map_of xs a = None" by (simp add: map_of_eq_None_iff)
  with Cons show ?case
    by (auto simp: x map_add_def split: option.splits)
qed

lemma map_of_own_entries_obj:
  "map_of (rev (own_entries (JObject kv))) k = map_of kv k"
  by (simp add: map_of_rev_distinct map_of_clearjunk)

lemma map_of_merged_todo:
  "map_of (merged_todo e (JObject old) (JObject upd) ident) k =
     (if k = ''updatedAt'' then Some (JString (now_iso e))
      else if k = ''id'' then Some ident
      else (case map_of upd k of None \<Rightarrow> map_of old k | Some v \<Rightarrow> Some v))"
  unfolding merged_todo_def
  by (simp add: update_conv' map_of_assign_all map_of_rev_distinct map_of_clearjunk
      split: option.splits)

lemma findIndex_Some:
  "findIndex P xs = Some i \<Longrightarrow> i < length xs \<and> P (xs ! i) \<and> (\<forall>j<i. \<not> P (xs ! j))"
proof (induction xs arbitrary: i)
  case Nil
  then show ?case by simp
next
  case (Cons x xs)
  show ?case
  proof (cases "P x")
    case True
    with Cons.prems show ?thesis by simp
  next
    case False
    with Cons.prems obtain i' where i': "findIndex P xs = Some i'" "i = Suc i'" by auto
    from Cons.IH [OF i'(1)] False show ?thesis
      by (auto simp: i'(2) less_Suc_eq_0_disj)
  qed
qed

lemma find_findIndex:
  "findIndex P xs = Some i \<Longrightarrow> find P xs = Some (xs ! i)"
  by (induction xs arbitrary: i) (auto split: if_splits)

lemma find_append_first:
  "\<forall>x\<in>set xs. \<not> P x \<Longrightarrow> P y \<Longrightarrow> find P (xs @ y # ys) = Some y"
  by (induction xs) auto

text \<open>
  A record put at the first position that carries an identifier, in a list that is then
  validated twice (written, then read): if it passes the checks both times it is the
  record found under that identifier.
\<close>

lemma find_after_save:
  assumes idx: "i < length xs" "\<forall>j<i. get_prop (xs ! j) ''id'' \<noteq> Some ident"
    and r: "validateTodos_keep r" "validateTodos_keep (validateTodos_fill e r)"
      "get_prop r ''id'' = Some ident"
  shows "find (\<lambda>t. get_prop t ''id'' = Some ident)
           (filter validateTodos_keep (map (validateTodos_fill e) (filter validateTodos_keep (xs[i := r]))))
         = Some (validateTodos_fill e r)"
proof -
  let ?Q = "\<lambda>t. get_prop t ''id'' = Some ident"
  let ?V = "\<lambda>ys. filter validateTodos_keep (map (validateTodos_fill e) (filter validateTodos_keep ys))"
  have split: "xs[i := r] = take i xs @ r # drop (Suc i) xs"
    using idx(1) by (rule upd_conv_take_nth_drop)
  have before: "\<forall>t\<in>set (?V (take i xs)). \<not> ?Q t"
  proof
    fix t assume "t \<in> set (?V (take i xs))"
    then obtain x where x: "x \<in> set (take i xs)" "validateTodos_keep x" "t = validateTodos_fill e x"
      by auto
    from x(1) obtain j where "j < i" "x = xs ! j"
      using idx(1) by (auto simp: in_set_conv_nth)
    with idx(2) have "\<not> ?Q x" by simp
    with x(2,3) show "\<not> ?Q t" by (simp add: fill_keeps_id)
  qed
  have here: "?Q (validateTodos_fill e r)"
    using r(1,3) by (simp add: fill_keeps_id)
  have "?V (xs[i := r]) = ?V (take i xs) @ validateTodos_fill e r # ?V (drop (Suc i) xs)"
    using r(1,2) by (simp add: split)
  then show ?thesis
    using before here by (simp add: find_append_first)
qed

section \<open>What a successful call did\<close>

lemma saveTodos_ok_getTodos:
  assumes "saveTodos fuel e todos s = Some (True, s')" and "now_iso e \<noteq> []"
  shows "getTodos e' s' = filter validateTodos_keep (validateTodos e todos)"
  using getTodos_persisted [OF saveTodos_ok [OF assms(1)]] assms(2)
  by (simp add: validateTodos_twice)

lemma updateTodo_success:
  assumes "updateTodo fuel e ident updates s = Some (Some r, s')"
  obtains index s0 where
    "findIndex (\<lambda>todo. get_prop todo ''id'' = Some ident) (getTodos e s) = Some index"
    "updates \<noteq> JNull"
    "r = JObject (completion_change e updates (merged_todo e (getTodos e s ! index) updates ident))"
    "saveTodos fuel e (JArray ((getTodos e s)[index := r])) s = Some (True, s0)"
    "s' = triggerStorageEvent e ''todo_updated''
            (JObject [(''old'', JObject (own_entries (getTodos e s ! index))), (''new'', r)]) s0"
  using assms
  by (auto simp: updateTodo_def updateTodo_try_def Let_def
      split: option.splits sum.splits if_splits prod.splits)

lemma addTodo_success:
  assumes "addTodo fuel e todoData s = Some (Some r, s')"
  obtains title s0 where
    "get_prop todoData ''title'' = Some (JString title)"
    "r = JObject (newTodo e todoData title)"
    "saveTodos fuel e (JArray (r # getTodos e s)) s = Some (True, s0)"
    "s' = triggerStorageEvent e ''todo_added'' r s0"
  using assms
  by (auto simp: addTodo_def addTodo_try_def Let_def
      split: option.splits sum.splits if_splits prod.splits json.splits)

lemma getTodo_after_update:
  assumes upd: "updateTodo fuel e ident updates s = Some (Some r, s')"
    and keep: "validateTodos_keep r" "validateTodos_keep (validateTodos_fill e r)"
    and now: "now_iso e \<noteq> []"
    and rid: "get_prop r ''id'' = Some ident"
  shows "getTodo e' ident s' = Some (validateTodos_fill e r)"
proof -
  from upd obtain index s0 where
    idx: "findIndex (\<lambda>todo. get_prop todo ''id'' = Some ident) (getTodos e s) = Some index"
    and save: "saveTodos fuel e (JArray ((getTodos e s)[index := r])) s = Some (True, s0)"
    and s': "s' = triggerStorageEvent e ''todo_updated''
            (JObject [(''old'', JObject (own_entries (getTodos e s ! index))), (''new'', r)]) s0"
    by (rule updateTodo_success)
  from findIndex_Some [OF idx]
  have i: "index < length (getTodos e s)"
    "\<forall>j<index. get_prop (getTodos e s ! j) ''id'' \<noteq> Some ident"
    by auto
  have "getTodos e' s' = filter validateTodos_keep
          (map (validateTodos_fill e) (filter validateTodos_keep ((getTodos e s)[index := r])))"
    using saveTodos_ok_getTodos [OF save now, of e'] by (simp add: s' validateTodos_array)
  then show ?thesis
    unfolding getTodo_def using find_after_save [OF i keep rid] by simp
qed

section \<open>Updating\<close>

lemma completion_change_lookup:
  "map_of (completion_change e updates m) k =
     (case get_prop updates ''completed'' of
        None \<Rightarrow> map_of m k
      | Some c \<Rightarrow> if k = ''completedAt'' then Some (if truthy c then JString (now_iso e) else JNull)
                  else map_of m k)"
  by (simp add: completion_change_def update_conv' split: option.splits)

lemma updated_id:
  "map_of (completion_change e updates (merged_todo e old updates ident)) ''id'' = Some ident"
  by (simp add: completion_change_lookup merged_todo_def update_conv' split: option.splits)

lemma getTodos_nth_fill:
  assumes "i < length (getTodos e s)"
  obtains x where "validateTodos_keep x" "getTodos e s ! i = validateTodos_fill e x"
  using getTodos_members [of "getTodos e s ! i" e s] assms by auto

lemma fill_createdAt_truthy:
  assumes "now_iso e \<noteq> []"
  shows "\<exists>c. get_prop (validateTodos_fill e x) ''createdAt'' = Some c \<and> truthy c"
  using assms by (auto simp: validateTodos_fill_def or_else_def split: option.splits)

lemma keep_of_fill:
  assumes "validateTodos_keep (validateTodos_fill e r)"
    and "get_prop r ''completed'' = Some (JBool b)"
  shows "validateTodos_keep r"
proof -
  from assms(2) obtain kv where r: "r = JObject kv" by (cases r) simp_all
  from assms(1) obtain i ti where
    i: "prop_value (map_of kv ''id'') = JString i" "i \<noteq> []"
    and ti: "trim_title (map_of kv ''title'') = JString ti" "ti \<noteq> []"
    by (auto simp: keep_iff r validateTodos_fill_def)
  from i have "map_of kv ''id'' = Some (JString i)"
    by (auto simp: prop_value_def split: option.splits if_splits)
  moreover from ti(1) obtain t where t: "map_of kv ''title'' = Some (JString t)" "ti = trim t"
    by (auto simp: trim_title_def split: option.splits json.splits)
  moreover from t(2) ti(2) have "t \<noteq> []"
    by (auto simp: trim_def)
  ultimately show ?thesis
    using assms(2) i(2) by (simp add: keep_iff r)
qed

text \<open>
  C4. When the partial passed to \<open>updateTodo\<close> has a \<open>completed\<close> key holding
  \<open>true\<close> or \<open>false\<close> and the call succeeds, the returned record's \<open>completedAt\<close>
  is the current time for \<open>true\<close> and \<open>null\<close> for \<open>false\<close>, whatever
  \<open>completedAt\<close> the partial itself carries. The same holds for the record read back
  under that id, when the clock's text is not empty and the record passes validation
  after trimming (its title is not blank).
\<close>

theorem updateTodo_completedAt_from_flag:
  assumes "updateTodo fuel e ident updates s = Some (Some r, s')"
    and "get_prop updates ''completed'' = Some (JBool b)"
  shows "get_prop r ''completedAt'' = Some (if b then JString (now_iso e) else JNull)
       \<and> (now_iso e \<noteq> [] \<longrightarrow> validateTodos_keep (validateTodos_fill e r) \<longrightarrow>
            (\<exists>p. getTodo e' ident s' = Some p \<and>
                 get_prop p ''completedAt'' = Some (if b then JString (now_iso e) else JNull)))"
proof -
  from assms(1) obtain index where
    r: "r = JObject (completion_change e updates (merged_todo e (getTodos e s ! index) updates ident))"
    by (rule updateTodo_success)
  from assms(2) obtain upd where upd: "updates = JObject upd" by (cases updates) simp_all
  have at: "get_prop r ''completedAt'' = Some (if b then JString (now_iso e) else JNull)"
    using assms(2) by (simp add: r completion_change_lookup)
  have rid: "get_prop r ''id'' = Some ident"
    by (simp add: r updated_id)
  have rdone: "get_prop r ''completed'' = Some (JBool b)"
    using assms(2)
    by (simp add: r upd completion_change_lookup merged_todo_def update_conv' map_of_assign_all
        map_of_rev_distinct map_of_clearjunk)
  have "\<exists>p. getTodo e' ident s' = Some p \<and>
           get_prop p ''completedAt'' = Some (if b then JString (now_iso e) else JNull)"
    if now: "now_iso e \<noteq> []" and keep: "validateTodos_keep (validateTodos_fill e r)"
  proof -
    from keep rdone have "validateTodos_keep r" by (rule keep_of_fill)
    from getTodo_after_update [OF assms(1) this keep now rid]
    have "getTodo e' ident s' = Some (validateTodos_fill e r)" .
    moreover have "get_prop (validateTodos_fill e r) ''completedAt''
        = Some (if b then JString (now_iso e) else JNull)"
      using at now by (simp add: validateTodos_fill_def or_else_def)
    ultimately show ?thesis by blast
  qed
  with at show ?thesis by blast
qed

text \<open>
  C5, as amended. A successful \<open>updateTodo\<close> with an object as partial returns a record
  with the \<open>id\<close> of the stored todo, whatever keys the partial has, and with its
  \<open>createdAt\<close> when the partial has no \<open>createdAt\<close> key. The same holds for the
  record read back under that id, when the clock's text is not empty and the merged
  record passes validation before and after trimming.
\<close>

theorem updateTodo_keeps_id:
  assumes "updateTodo fuel e ident updates s = Some (Some r, s')"
    and "getTodo e ident s = Some old"
    and "updates = JObject upd"
  shows "get_prop r ''id'' = get_prop old ''id''
       \<and> (map_of upd ''createdAt'' = None \<longrightarrow> get_prop r ''createdAt'' = get_prop old ''createdAt'')
       \<and> (now_iso e \<noteq> [] \<longrightarrow> validateTodos_keep r \<longrightarrow> validateTodos_keep (validateTodos_fill e r) \<longrightarrow>
            (\<exists>p. getTodo e' ident s' = Some p \<and> get_prop p ''id'' = get_prop old ''id'' \<and>
               (map_of upd ''createdAt'' = None \<longrightarrow>
                  get_prop p ''createdAt'' = get_prop old ''createdAt'')))"
proof -
  from assms(1) obtain index where
    idx: "findIndex (\<lambda>todo. get_prop todo ''id'' = Some ident) (getTodos e s) = Some index"
    and r: "r = JObject (completion_change e updates (merged_todo e (getTodos e s ! index) updates ident))"
    by (rule updateTodo_success)
  from find_findIndex [OF idx] assms(2) have old: "old = getTodos e s ! index"
    by (simp add: getTodo_def)
  from findIndex_Some [OF idx] have i: "index < length (getTodos e s)"
    and oid: "get_prop old ''id'' = Some ident"
    by (simp_all add: old)
  from i obtain x where x: "validateTodos_keep x" "old = validateTodos_fill e x"
    unfolding old by (rule getTodos_nth_fill)
  obtain okv where okv: "old = JObject okv" by (simp add: x(2) validateTodos_fill_def)
  have rid: "get_prop r ''id'' = Some ident"
    by (simp add: r updated_id)
  have rcreated: "get_prop r ''createdAt'' = get_prop old ''createdAt''"
    if "map_of upd ''createdAt'' = None"
    using that okv
    by (simp add: r old [symmetric] assms(3) completion_change_lookup map_of_merged_todo
        split: option.splits)
  have "\<exists>p. getTodo e' ident s' = Some p \<and> get_prop p ''id'' = get_prop old ''id'' \<and>
          (map_of upd ''createdAt'' = None \<longrightarrow> get_prop p ''createdAt'' = get_prop old ''createdAt'')"
    if now: "now_iso e \<noteq> []" and keep: "validateTodos_keep r"
      "validateTodos_keep (validateTodos_fill e r)"
  proof -
    from getTodo_after_update [OF assms(1) keep now rid]
    have p: "getTodo e' ident s' = Some (validateTodos_fill e r)" .
    have pid: "get_prop (validateTodos_fill e r) ''id'' = get_prop old ''id''"
      using keep(1) rid oid by (simp add: fill_keeps_id)
    have "map_of upd ''createdAt'' = None \<longrightarrow>
            get_prop (validateTodos_fill e r) ''createdAt'' = get_prop old ''createdAt''"
    proof
      assume none: "map_of upd ''createdAt'' = None"
      from fill_createdAt_truthy [OF now, of x] obtain c where
        c: "get_prop old ''createdAt'' = Some c" "truthy c"
        by (auto simp: x(2))
      with rcreated [OF none]
      show "get_prop (validateTodos_fill e r) ''createdAt'' = get_prop old ''createdAt''"
        by (simp add: validateTodos_fill_def or_else_def)
    qed
    with p pid show ?thesis by simp
  qed
  with rid oid rcreated show ?thesis by simp
qed

section \<open>Runs of \<open>updateTodo\<close>\<close>

text \<open>
  The run for C4: the todo with id 2 is completed with a partial that also carries a
  \<open>completedAt\<close> of 1999; the record returned and the record read back both have the
  time of the update.
\<close>

theorem updateTodo_completedAt_from_flag_witness:
  "Option.bind (updateTodo (Suc 0) env0 (JString ''2'') partial_done store0)
       (\<lambda>x. Option.bind (fst x) (\<lambda>r. get_prop r ''completedAt''))
     = Some (JString ''2026-11-02T10:00:00.000Z'')
   \<and> Option.bind (updateTodo (Suc 0) env0 (JString ''2'') partial_done store0)
       (\<lambda>x. Option.bind (getTodo env0 (JString ''2'') (snd x)) (\<lambda>p. get_prop p ''completedAt''))
     = Some (JString ''2026-11-02T10:00:00.000Z'')"
proof -
  let ?r = "JObject
         [(''id'', JString ''2''), (''title'', JString ''Team meeting''),
          (''completed'', JBool True), (''dueDate'', JNull),
          (''createdAt'', JString ''2026-11-01T09:00:00.000Z''),
          (''completedAt'', JString ''2026-11-02T10:00:00.000Z''),
          (''priority'', JString ''normal''), (''tags'', JArray []),
          (''description'', JString ''''),
          (''updatedAt'', JString ''2026-11-02T10:00:00.000Z'')]"
  have "\<exists>s'. updateTodo (Suc 0) env0 (JString ''2'') partial_done store0 = Some (Some ?r, s')"
    by (simp add: operation_defs validator_defs session_defs Let_def)
  then obtain s' where
    u: "updateTodo (Suc 0) env0 (JString ''2'') partial_done store0 = Some (Some ?r, s')" ..
  have c: "get_prop partial_done ''completed'' = Some (JBool True)"
    by (simp add: partial_done_def)
  have now: "now_iso env0 \<noteq> []" by (simp add: env0_def)
  have keep: "validateTodos_keep (validateTodos_fill env0 ?r)"
    by (simp add: validator_defs)
  from updateTodo_completedAt_from_flag [OF u c, of env0] now keep
  obtain p where "get_prop ?r ''completedAt'' = Some (JString (now_iso env0))"
    "getTodo env0 (JString ''2'') s' = Some p"
    "get_prop p ''completedAt'' = Some (JString (now_iso env0))"
    by auto
  then show ?thesis
    using u by (simp add: env0_def)
qed

text \<open>
  The run for C5 as amended: a partial with an \<open>id\<close> of its own and no \<open>createdAt\<close>;
  the record read back still has id 2 and the \<open>createdAt\<close> it had.
\<close>

theorem updateTodo_keeps_id_witness:
  "Option.bind (updateTodo (Suc 0) env0 (JString ''2'') partial_id store0)
       (\<lambda>x. Option.bind (getTodo env0 (JString ''2'') (snd x)) (\<lambda>p. get_prop p ''id''))
     = Some (JString ''2'')
   \<and> Option.bind (updateTodo (Suc 0) env0 (JString ''2'') partial_id store0)
       (\<lambda>x. Option.bind (getTodo env0 (JString ''2'') (snd x)) (\<lambda>p. get_prop p ''createdAt''))
     = Some (JString ''2026-11-01T09:00:00.000Z'')"
proof -
  let ?r = "JObject
         [(''id'', JString ''2''), (''title'', JString ''Standup''),
          (''completed'', JBool False), (''dueDate'', JNull),
          (''createdAt'', JString ''2026-11-01T09:00:00.000Z''),
          (''completedAt'', JNull),
          (''priority'', JString ''normal''), (''tags'', JArray []),
          (''description'', JString ''''),
          (''updatedAt'', JString ''2026-11-02T10:00:00.000Z'')]"
  have "\<exists>s'. updateTodo (Suc 0) env0 (JString ''2'') partial_id store0 = Some (Some ?r, s')"
    by (simp add: operation_defs validator_defs session_defs Let_def)
  then obtain s' where
    u: "updateTodo (Suc 0) env0 (JString ''2'') partial_id store0 = Some (Some ?r, s')" ..
  have old: "getTodo env0 (JString ''2'') store0 = Some todo_pending"
    by (simp add: operation_defs validator_defs session_defs)
  have now: "now_iso env0 \<noteq> []" by (simp add: env0_def)
  have keep: "validateTodos_keep ?r" "validateTodos_keep (validateTodos_fill env0 ?r)"
    by (simp_all add: validator_defs)
  have none: "map_of [(''title'', JString ''Standup''), (''id'', JString ''99'')] ''createdAt'' = None"
    by simp
  from updateTodo_keeps_id [OF u old partial_id_def, of env0] now keep none
  obtain p where "getTodo env0 (JString ''2'') s' = Some p"
    "get_prop p ''id'' = get_prop todo_pending ''id''"
    "get_prop p ''createdAt'' = get_prop todo_pending ''createdAt''"
    by auto
  then show ?thesis
    using u by (simp add: todo_pending_def)
qed

text \<open>
  C5, the claim as stated: after a successful \<open>updateTodo\<close> the record's \<open>id\<close> and
  \<open>createdAt\<close> are unchanged, also for a partial with a \<open>createdAt\<close> key. The merge
  protects \<open>id\<close> only. The todo with id 2 was created on 1 November 2026; after an
  update whose partial carries a \<open>createdAt\<close> of 1999 the record read back has that one.
\<close>

theorem updateTodo_overrides_createdAt:
  "Option.bind (getTodo env0 (JString ''2'') store0) (\<lambda>p. get_prop p ''createdAt'')
     = Some (JString ''2026-11-01T09:00:00.000Z'')
   \<and> map_option fst (updateTodo (Suc 0) env0 (JString ''2'') partial_created store0)
     = Some (Some (JObject
         [(''id'', JString ''2''), (''title'', JString ''Team meeting''),
          (''completed'', JBool False), (''dueDate'', JNull),
          (''createdAt'', JString ''1999-01-01T00:00:00.000Z''),
          (''completedAt'', JNull),
          (''priority'', JString ''normal''), (''tags'', JArray []),
          (''description'', JString ''''),
          (''updatedAt'', JString ''2026-11-02T10:00:00.000Z'')]))
   \<and> Option.bind (updateTodo (Suc 0) env0 (JString ''2'') partial_created store0)
       (\<lambda>x. Option.bind (getTodo env0 (JString ''2'') (snd x)) (\<lambda>p. get_prop p ''createdAt''))
     = Some (JString ''1999-01-01T00:00:00.000Z'')"
  by (simp add: operation_defs validator_defs session_defs Let_def)

section \<open>Adding\<close>

lemma trim_nonempty: "trim t \<noteq> [] \<Longrightarrow> t \<noteq> []"
  by (auto simp: trim_def)

lemma newTodo_keep:
  assumes "trim title \<noteq> []"
  shows "validateTodos_keep (JObject (newTodo e todoData title))"
  using assms by (auto simp: keep_iff newTodo_def generateId_nonempty)

lemma array_or_empty_tags:
  assumes "\<not> truthy_opt tags \<or> isArray tags"
  shows "array_or_empty (Some (or_else tags (JArray []))) = or_else tags (JArray [])"
proof (cases tags)
  case None
  then show ?thesis by (simp add: array_or_empty_def or_else_def)
next
  case (Some v)
  with assms show ?thesis
    by (cases v) (auto simp: array_or_empty_def or_else_def)
qed

lemma newTodo_fill:
  assumes "\<not> truthy_opt (get_prop todoData ''tags'') \<or> isArray (get_prop todoData ''tags'')"
  shows "validateTodos_fill e (JObject (newTodo e todoData title)) = JObject (newTodo e todoData title)"
  using array_or_empty_tags [OF assms]
  by (simp add: validateTodos_fill_def newTodo_def trim_title_def trim_idem or_else_idem)
     (simp add: prop_value_def or_else_def)

text \<open>
  C9, as amended. When \<open>addTodo\<close> succeeds on data whose title is not blank and whose
  \<open>tags\<close> are absent, falsy or a list, and the clock's text is not empty, the returned
  record has the generated id and \<open>getTodo\<close> with that id, at any later time, yields
  a record equal to it.
\<close>

theorem addTodo_then_getTodo:
  assumes "addTodo fuel e todoData s = Some (Some r, s')"
    and "get_prop todoData ''title'' = Some (JString title)"
    and "trim title \<noteq> []"
    and "\<not> truthy_opt (get_prop todoData ''tags'') \<or> isArray (get_prop todoData ''tags'')"
    and "now_iso e \<noteq> []"
  shows "get_prop r ''id'' = Some (JString (generateId e))
       \<and> getTodo e' (JString (generateId e)) s' = Some r"
proof -
  from assms(1) obtain title' s0 where
    t: "get_prop todoData ''title'' = Some (JString title')"
    and r: "r = JObject (newTodo e todoData title')"
    and save: "saveTodos fuel e (JArray (r # getTodos e s)) s = Some (True, s0)"
    and s': "s' = triggerStorageEvent e ''todo_added'' r s0"
    by (rule addTodo_success)
  from t assms(2) have title: "title' = title" by simp
  have rid: "get_prop r ''id'' = Some (JString (generateId e))"
    by (simp add: r newTodo_def)
  have keep: "validateTodos_keep r"
    unfolding r title using assms(3) by (rule newTodo_keep)
  have fill: "validateTodos_fill e r = r"
    unfolding r using assms(4) by (rule newTodo_fill)
  have "getTodos e' s' = filter validateTodos_keep (validateTodos e (JArray (r # getTodos e s)))"
    using saveTodos_ok_getTodos [OF save assms(5), of e'] by (simp add: s')
  then have "getTodos e' s'
      = r # filter validateTodos_keep (validateTodos e (JArray (getTodos e s)))"
    using keep fill by (simp add: validateTodos_array)
  then show ?thesis
    using rid by (simp add: getTodo_def)
qed

text \<open>
  The run for C9 as amended: the data of the form, with a title to trim and a due date.
\<close>

theorem addTodo_then_getTodo_witness:
  "map_option fst (addTodo (Suc 0) env0 data_form store0)
     = Some (Some (JObject
         [(''id'', JString ''1793613600000k3x9q2m7p''), (''title'', JString ''Buy milk''),
          (''completed'', JBool False), (''dueDate'', JString ''2026-11-05''),
          (''createdAt'', JString ''2026-11-02T10:00:00.000Z''), (''completedAt'', JNull),
          (''priority'', JString ''normal''), (''tags'', JArray []),
          (''description'', JString '''')]))
   \<and> map_option (getTodo env0 (JString ''1793613600000k3x9q2m7p'') \<circ> snd)
         (addTodo (Suc 0) env0 data_form store0)
     = map_option fst (addTodo (Suc 0) env0 data_form store0)"
proof -
  let ?r = "JObject
         [(''id'', JString ''1793613600000k3x9q2m7p''), (''title'', JString ''Buy milk''),
          (''completed'', JBool False), (''dueDate'', JString ''2026-11-05''),
          (''createdAt'', JString ''2026-11-02T10:00:00.000Z''), (''completedAt'', JNull),
          (''priority'', JString ''normal''), (''tags'', JArray []),
          (''description'', JString '''')]"
  have "\<exists>s'. addTodo (Suc 0) env0 data_form store0 = Some (Some ?r, s')"
    by (simp add: operation_defs validator_defs session_defs toString_nat.simps Let_def)
  then obtain s' where a: "addTodo (Suc 0) env0 data_form store0 = Some (Some ?r, s')" ..
  have t: "get_prop data_form ''title'' = Some (JString '' Buy milk '')"
    by (simp add: data_form_def)
  have nb: "trim '' Buy milk '' \<noteq> []"
    by (simp add: trim_def is_ws_def)
  have tags: "\<not> truthy_opt (get_prop data_form ''tags'') \<or> isArray (get_prop data_form ''tags'')"
    by (simp add: data_form_def)
  have now: "now_iso env0 \<noteq> []" by (simp add: env0_def)
  from addTodo_then_getTodo [OF a t nb tags now, of env0]
  have "getTodo env0 (JString ''1793613600000k3x9q2m7p'') s' = Some ?r"
    by (simp add: generateId_env0)
  then show ?thesis using a by simp
qed

text \<open>
  C9, the claim as stated: whenever \<open>addTodo\<close> returns a todo, \<open>getTodo\<close> with its id
  yields an equal record. \<open>addTodo\<close> keeps \<open>tags\<close> as given when they are truthy,
  while \<open>saveTodos\<close> stores the empty list for tags that are no list. With the tags
  \<open>'home'\<close> the returned record has them and the record read back has \<open>[]\<close>.
\<close>

theorem addTodo_then_getTodo_differs:
  "map_option fst (addTodo (Suc 0) env0 data_tags store0)
     = Some (Some (JObject
         [(''id'', JString ''1793613600000k3x9q2m7p''), (''title'', JString ''Buy milk''),
          (''completed'', JBool False), (''dueDate'', JNull),
          (''createdAt'', JString ''2026-11-02T10:00:00.000Z''), (''completedAt'', JNull),
          (''priority'', JString ''normal''), (''tags'', JString ''home''),
          (''description'', JString '''')]))
   \<and> map_option (getTodo env0 (JString ''1793613600000k3x9q2m7p'') \<circ> snd)
         (addTodo (Suc 0) env0 data_tags store0)
     = Some (Some (JObject
         [(''id'', JString ''1793613600000k3x9q2m7p''), (''title'', JString ''Buy milk''),
          (''completed'', JBool False), (''dueDate'', JNull),
          (''createdAt'', JString ''2026-11-02T10:00:00.000Z''), (''completedAt'', JNull),
          (''priority'', JString ''normal''), (''tags'', JArray []),
          (''description'', JString '''')]))"
  by (simp add: operation_defs validator_defs session_defs toString_nat.simps Let_def)

section \<open>Quota recovery\<close>

text \<open>
  The test of the cleanup written out: a todo stays when it is not completed, or when
  the instant of its \<open>completedAt\<close> (of its \<open>createdAt\<close>, when \<open>completedAt\<close> is
  missing or falsy) is later than 2592000000 ms, 30 days, before now.
\<close>

lemma cleanup_keep_iff:
  "cleanup_keep e t \<longleftrightarrow>
     (\<not> truthy_opt (get_prop t ''completed'') \<or>
      (\<exists>d. (case (if truthy_opt (get_prop t ''completedAt'') then get_prop t ''completedAt''
                   else get_prop t ''createdAt'') of
               None \<Rightarrow> None
             | Some v \<Rightarrow> to_time e v) = Some d \<and>
           date_now e - 2592000000 < d))"
  by (simp add: cleanup_keep_def js_or_def getTime_def thirtyDaysAgo_def split: option.splits)

lemma length_filter_less_iff:
  "length (filter P xs) < length xs \<longleftrightarrow> (\<exists>x\<in>set xs. \<not> P x)"
proof
  assume "length (filter P xs) < length xs"
  then have "filter P xs \<noteq> xs" by auto
  then show "\<exists>x\<in>set xs. \<not> P x" by (simp add: filter_id_conv)
next
  assume "\<exists>x\<in>set xs. \<not> P x"
  then obtain x where "x \<in> set xs" "\<not> P x" by blast
  then show "length (filter P xs) < length xs" by (rule length_filter_less)
qed

lemma validateTodos_of_read:
  assumes "set ys \<subseteq> set (getTodos e s)"
  shows "validateTodos e (JArray ys) = filter validateTodos_keep ys"
proof -
  have "map (validateTodos_fill e) (filter validateTodos_keep ys) = filter validateTodos_keep ys"
    using assms
  proof (induction ys)
    case Nil
    then show ?case by simp
  next
    case (Cons y ys)
    then have "y \<in> set (getTodos e s)" by simp
    then obtain x where "validateTodos_keep x" "y = validateTodos_fill e x"
      using getTodos_members by blast
    then have "validateTodos_fill e y = y" by (simp add: fill_idem)
    with Cons show ?case by simp
  qed
  then show ?thesis by (simp add: validateTodos_array)
qed

lemma saveTodos_durable_ok:
  assumes "\<not> usingMemoryFallback s"
    and "set_item e storageKey (JArray (validateTodos e todos)) = WriteOk"
  shows "saveTodos (Suc n) e todos s
     = Some (True, triggerStorageEvent e ''todos_updated'' (JArray (validateTodos e todos))
                     (s\<lparr>todos_item := Doc (JArray (validateTodos e todos))\<rparr>))"
  using assms by (simp add: Let_def)

text \<open>
  What \<open>handleQuotaExceeded\<close> leaves behind on a durable store whose backend accepts the
  reduced list: nothing changes when every todo read passes the test of the cleanup;
  otherwise the backend holds, and \<open>getTodos\<close> reads, the todos that pass the test and
  the required-field checks, in their order.
\<close>

lemma handleQuotaExceeded_result:
  assumes nf: "\<not> usingMemoryFallback s"
    and second: "set_item e storageKey
        (JArray (validateTodos e (JArray (filter (cleanup_keep e) (getTodos e s))))) = WriteOk"
  shows "\<exists>s'. handleQuotaExceeded (saveTodos (Suc n)) e s = Some s'
       \<and> ((\<forall>t\<in>set (getTodos e s). cleanup_keep e t) \<longrightarrow> s' = s)
       \<and> ((\<exists>t\<in>set (getTodos e s). \<not> cleanup_keep e t) \<longrightarrow>
            getTodos e s' = filter (\<lambda>t. validateTodos_keep t \<and> cleanup_keep e t) (getTodos e s) \<and>
            persisted_todos s' = Some (JArray (getTodos e s')))"
proof (cases "\<exists>t\<in>set (getTodos e s). \<not> cleanup_keep e t")
  case True
  let ?kept = "filter (cleanup_keep e) (getTodos e s)"
  let ?s' = "triggerStorageEvent e ''todos_updated'' (JArray (validateTodos e (JArray ?kept)))
               (s\<lparr>todos_item := Doc (JArray (validateTodos e (JArray ?kept)))\<rparr>)"
  from True have less: "length ?kept < length (getTodos e s)"
    by (simp add: length_filter_less_iff)
  have run: "handleQuotaExceeded (saveTodos (Suc n)) e s = Some ?s'"
    using less saveTodos_durable_ok [OF nf second, of n]
    by (simp add: handleQuotaExceeded_def handleQuotaExceeded_try_def Let_def)
  have kept: "validateTodos e (JArray ?kept) = filter validateTodos_keep ?kept"
    by (rule validateTodos_of_read) auto
  have stored: "persisted_todos ?s' = Some (JArray (filter validateTodos_keep ?kept))"
    using nf by (simp add: persisted_durable kept)
  have "getTodos e ?s' = validateTodos e (JArray (filter validateTodos_keep ?kept))"
    using stored by (rule getTodos_persisted)
  also have "\<dots> = filter validateTodos_keep (filter validateTodos_keep ?kept)"
    by (rule validateTodos_of_read) auto
  also have "\<dots> = filter (\<lambda>t. validateTodos_keep t \<and> cleanup_keep e t) (getTodos e s)"
    by (simp add: conj_commute)
  finally have read: "getTodos e ?s'
      = filter (\<lambda>t. validateTodos_keep t \<and> cleanup_keep e t) (getTodos e s)" .
  have ff: "filter validateTodos_keep ?kept
      = filter (\<lambda>t. validateTodos_keep t \<and> cleanup_keep e t) (getTodos e s)"
    by (simp add: conj_commute)
  have "persisted_todos ?s' = Some (JArray (getTodos e ?s'))"
    by (simp only: read stored ff)
  with run read True show ?thesis by blast
next
  case False
  then have "\<not> length (filter (cleanup_keep e) (getTodos e s)) < length (getTodos e s)"
    by (simp add: length_filter_less_iff)
  then have "handleQuotaExceeded (saveTodos (Suc n)) e s = Some s"
    by (simp add: handleQuotaExceeded_def handleQuotaExceeded_try_def Let_def)
  with False show ?thesis by blast
qed

text \<open>
  C7. A durable store, an \<open>addTodo\<close> whose write fails for lack of space, and a backend
  that accepts the reduced list. Before \<open>addTodo\<close> returns (\<open>null\<close>), quota recovery
  has run, and of the todos that were read
  \<^item> every completed one whose \<open>completedAt\<close> (or \<open>createdAt\<close>, when \<open>completedAt\<close>
    is missing) lies more than 30 days, 2592000000 ms, before now is gone from the list
    read afterwards;
  \<^item> every one that passes the required-field checks and is pending, or completed with
    that date less than 30 days before now, is still there;
  \<^item> if any todo fails the test (completed with that date not later than 30 days before
    now, or without a readable date), the list read afterwards is exactly the todos that
    pass the test and the checks, in their order, and the backend holds that list;
  \<^item> if none fails it, the store is left as it was.
\<close>

theorem addTodo_quota_recovery:
  assumes "\<not> usingMemoryFallback s"
    and "get_prop todoData ''title'' = Some (JString title)"
    and "set_item e storageKey
           (JArray (validateTodos e (JArray (JObject (newTodo e todoData title) # getTodos e s))))
         = QuotaExceededError"
    and "set_item e storageKey
           (JArray (validateTodos e (JArray (filter (cleanup_keep e) (getTodos e s))))) = WriteOk"
  shows
    "let date = (\<lambda>t. case (if truthy_opt (get_prop t ''completedAt'') then get_prop t ''completedAt''
                             else get_prop t ''createdAt'') of
                         None \<Rightarrow> None
                       | Some v \<Rightarrow> to_time e v);
         cutoff = date_now e - 2592000000;
         stays = (\<lambda>t. \<not> truthy_opt (get_prop t ''completed'') \<or>
                        (\<exists>d. date t = Some d \<and> cutoff < d))
     in \<exists>s'. addTodo (Suc (Suc n)) e todoData s = Some (None, s')
          \<and> (\<forall>t\<in>set (getTodos e s). \<forall>d.
                truthy_opt (get_prop t ''completed'') \<longrightarrow> date t = Some d \<longrightarrow> d < cutoff \<longrightarrow>
                t \<notin> set (getTodos e s'))
          \<and> (\<forall>t\<in>set (getTodos e s).
                validateTodos_keep t \<longrightarrow> stays t \<longrightarrow> t \<in> set (getTodos e s'))
          \<and> ((\<exists>t\<in>set (getTodos e s). \<not> stays t) \<longrightarrow>
                getTodos e s' = filter (\<lambda>t. validateTodos_keep t \<and> stays t) (getTodos e s) \<and>
                persisted_todos s' = Some (JArray (getTodos e s')))
          \<and> ((\<forall>t\<in>set (getTodos e s). stays t) \<longrightarrow> s' = s)"
proof -
  let ?date = "\<lambda>t. case (if truthy_opt (get_prop t ''completedAt'') then get_prop t ''completedAt''
                             else get_prop t ''createdAt'') of
                         None \<Rightarrow> None
                       | Some v \<Rightarrow> to_time e v"
  let ?stays = "\<lambda>t. \<not> truthy_opt (get_prop t ''completed'') \<or>
                        (\<exists>d. ?date t = Some d \<and> date_now e - 2592000000 < d)"
  have ck: "cleanup_keep e = ?stays"
    by (rule ext) (rule cleanup_keep_iff)
  from handleQuotaExceeded_result [OF assms(1,4), of n] obtain s' where
    h: "handleQuotaExceeded (saveTodos (Suc n)) e s = Some s'"
    and same: "(\<forall>t\<in>set (getTodos e s). ?stays t) \<longrightarrow> s' = s"
    and reduced: "(\<exists>t\<in>set (getTodos e s). \<not> ?stays t) \<longrightarrow>
            getTodos e s' = filter (\<lambda>t. validateTodos_keep t \<and> ?stays t) (getTodos e s) \<and>
            persisted_todos s' = Some (JArray (getTodos e s'))"
    unfolding ck by blast
  have "saveTodos (Suc (Suc n)) e (JArray (JObject (newTodo e todoData title) # getTodos e s)) s
      = Some (False, s')"
    using assms(1,3) h by (simp add: Let_def)
  then have add: "addTodo (Suc (Suc n)) e todoData s = Some (None, s')"
    using assms(2) by (simp add: addTodo_def addTodo_try_def Let_def)
  have gone: "t \<notin> set (getTodos e s')"
    if "t \<in> set (getTodos e s)" "truthy_opt (get_prop t ''completed'')"
      "?date t = Some d" "d < date_now e - 2592000000" for t d
  proof -
    from that have "\<not> ?stays t" by auto
    with that(1) reduced
    have "getTodos e s' = filter (\<lambda>t. validateTodos_keep t \<and> ?stays t) (getTodos e s)"
      by blast
    with \<open>\<not> ?stays t\<close> show ?thesis by simp
  qed
  have there: "t \<in> set (getTodos e s')"
    if "t \<in> set (getTodos e s)" "validateTodos_keep t" "?stays t" for t
  proof (cases "\<forall>t\<in>set (getTodos e s). ?stays t")
    case True
    with same that(1) show ?thesis by simp
  next
    case False
    with reduced
    have "getTodos e s' = filter (\<lambda>t. validateTodos_keep t \<and> ?stays t) (getTodos e s)"
      by blast
    with that show ?thesis by simp
  qed
  show ?thesis
    unfolding Let_def
    using add gone there reduced same by blast
qed

text \<open>
  The run for C7: five todos are stored and the backend has room for three. Adding a
  sixth fails for lack of space. The todo completed in January and the one without
  \<open>completedAt\<close> created in January are removed; the pending todo, the todo completed
  on 20 October and the one without \<open>completedAt\<close> created on 25 October stay, in their
  order, and that list is what the backend holds when \<open>addTodo\<close> returns \<open>null\<close>.
\<close>

theorem addTodo_quota_recovery_witness:
  "map_option fst (addTodo (Suc (Suc 0)) env_full data_plain store_five) = Some None
   \<and> map_option (getTodos env_full \<circ> snd) (addTodo (Suc (Suc 0)) env_full data_plain store_five)
     = Some [todo_pending, todo_recent, todo_undated_recent]
   \<and> map_option (persisted_todos \<circ> snd) (addTodo (Suc (Suc 0)) env_full data_plain store_five)
     = Some (Some (JArray [todo_pending, todo_recent, todo_undated_recent]))"
proof -
  let ?date = "\<lambda>t. case (if truthy_opt (get_prop t ''completedAt'') then get_prop t ''completedAt''
                             else get_prop t ''createdAt'') of
                         None \<Rightarrow> None
                       | Some v \<Rightarrow> to_time env_full v"
  let ?stays = "\<lambda>t. \<not> truthy_opt (get_prop t ''completed'') \<or>
                        (\<exists>d. ?date t = Some d \<and> date_now env_full - 2592000000 < d)"
  have nf: "\<not> usingMemoryFallback store_five" by (simp add: store_five_def)
  have t: "get_prop data_plain ''title'' = Some (JString ''Buy milk'')"
    by (simp add: data_plain_def)
  have todos: "getTodos env_full store_five
      = [todo_pending, todo_recent, todo_undated_recent, todo_old, todo_undated_old]"
    by (simp add: getTodos_def validator_defs session_defs)
  have kept: "filter (cleanup_keep env_full)
        [todo_pending, todo_recent, todo_undated_recent, todo_old, todo_undated_old]
      = [todo_pending, todo_recent, todo_undated_recent]"
    by (simp add: cleanup_keep_def js_or_def getTime_def thirtyDaysAgo_def session_defs)
  have v3: "validateTodos env_full (JArray [todo_pending, todo_recent, todo_undated_recent])
      = [todo_pending, todo_recent, todo_undated_recent]"
    by (simp add: validator_defs session_defs)
  have full: "set_item env_full k (JArray xs)
      = (if length xs \<le> 3 then WriteOk else QuotaExceededError)" for k xs
    by (simp add: env_full_def)
  have v6: "length (validateTodos env_full
      (JArray [JObject (newTodo env_full data_plain ''Buy milk''), todo_pending, todo_recent,
               todo_undated_recent, todo_old, todo_undated_old])) = 6"
    by (simp add: newTodo_def generateId_def toString_int_def digit_char_def
        toString_nat.simps validator_defs session_defs)
  have first: "set_item env_full storageKey
           (JArray (validateTodos env_full
              (JArray (JObject (newTodo env_full data_plain ''Buy milk'') # getTodos env_full store_five))))
         = QuotaExceededError"
    by (simp only: todos full v6) simp
  have second: "set_item env_full storageKey
           (JArray (validateTodos env_full
              (JArray (filter (cleanup_keep env_full) (getTodos env_full store_five)))))
         = WriteOk"
    by (simp only: todos kept v3 full) simp
  from addTodo_quota_recovery [OF nf t first second, of 0, unfolded Let_def]
  obtain s' where a: "addTodo (Suc (Suc 0)) env_full data_plain store_five = Some (None, s')"
    and reduced: "(\<exists>t\<in>set (getTodos env_full store_five). \<not> ?stays t) \<longrightarrow>
            getTodos env_full s'
              = filter (\<lambda>t. validateTodos_keep t \<and> ?stays t) (getTodos env_full store_five) \<and>
            persisted_todos s' = Some (JArray (getTodos env_full s'))"
    by blast
  have some: "\<exists>t\<in>set (getTodos env_full store_five). \<not> ?stays t"
    unfolding todos by (simp add: session_defs)
  have list: "filter (\<lambda>t. validateTodos_keep t \<and> ?stays t) (getTodos env_full store_five)
      = [todo_pending, todo_recent, todo_undated_recent]"
    unfolding todos by (simp add: validateTodos_keep_def session_defs)
  from reduced some list have "getTodos env_full s' = [todo_pending, todo_recent, todo_undated_recent]"
    "persisted_todos s' = Some (JArray [todo_pending, todo_recent, todo_undated_recent])"
    by simp_all
  with a show ?thesis by simp
qed

end
